theory Spec2Isabelle
  imports Main "HOL-Library.Word"
begin

section \<open>RevenueBridge: data model\<close>

text \<open>
  Shallow embedding of \<^verbatim>\<open>contracts/RevenueBridge.sol\<close> and of the token it is tested
  against, \<^verbatim>\<open>MockNBPT\<close> (Solidity 0.8). A \<^verbatim>\<open>uint256\<close> and
  a \<^verbatim>\<open>bytes32\<close> are 256-bit words, an \<^verbatim>\<open>address\<close> is a 160-bit word. Arithmetic is
  checked, as in Solidity 0.8: an overflowing \<^verbatim>\<open>+\<close>, \<^verbatim>\<open>*\<close> or an underflowing \<^verbatim>\<open>-\<close>
  reverts with \<^verbatim>\<open>Panic(0x11)\<close>. A revert is the left injection of a sum; the state of a
  reverted call is discarded.
\<close>

type_synonym uint256 = "256 word"
type_synonym bytes32 = "256 word"
type_synonym address = "160 word"

datatype SettlementStatus = PENDING | SETTLED | REVERSED | DISPUTED

record RevenueEntry =
  invoiceId :: string
  payer :: address
  beneficiary :: address
  amount :: uint256
  currency :: address
  sourceSystem :: bytes32
  destinationSystem :: bytes32
  settlementId :: bytes32
  status :: SettlementStatus
  bridgedAt :: uint256
  settledAt :: uint256

record AllocationConfig =
  reserveBps :: uint256
  liquidityBps :: uint256
  enterpriseBps :: uint256
  stakingBps :: uint256

text \<open>
  The custom errors of the contract, the errors of the OpenZeppelin v5 base contracts it
  inherits (\<^verbatim>\<open>Ownable\<close>, \<^verbatim>\<open>Pausable\<close>, \<^verbatim>\<open>ReentrancyGuard\<close>; the test-suite expects
  \<^verbatim>\<open>OwnableUnauthorizedAccount(address)\<close> and \<^verbatim>\<open>EnforcedPause()\<close>), the arithmetic
  panic of checked arithmetic, and the revert of a failed \<^verbatim>\<open>require(cond, message)\<close>, which
  carries the message.
\<close>

datatype error =
    Unauthorized
  | ZeroAddress
  | ZeroAmount
  | InvalidPercentages
  | InvoiceAlreadyProcessed string
  | SettlementNotFound bytes32
  | InvalidSettlementStatus bytes32 SettlementStatus SettlementStatus
  | InvalidSourceSystem
  | OwnableUnauthorizedAccount address
  | OwnableInvalidOwner address
  | EnforcedPause
  | ExpectedPause
  | ReentrancyGuardReentrantCall
  | Panic_Arithmetic
  | RequireFailed string

datatype event =
    RevenueBridged string address address uint256 address bytes32 bytes32 bytes32 uint256
  | PartitionIssued bytes32 bytes32 address uint256
  | RevenueReversed bytes32 string address bytes32 uint256
  | SettlementStatusChanged bytes32 SettlementStatus SettlementStatus
  | OperatorUpdated address address
  | AllocationUpdated uint256 uint256 uint256 uint256
  | OwnershipTransferred address address
  | Paused address
  | Unpaused address
  | Issued bytes32 address uint256
  | Burned bytes32 address uint256

text \<open>
  The storage of the contract, with the storage of the inherited base contracts
  (\<open>owner\<close>, \<open>paused\<close>, \<open>entered\<close> for the reentrancy guard's status), the storage of the
  token contract the bridge issues to (\<^verbatim>\<open>_partitionBalances\<close> and \<^verbatim>\<open>_partitionTotals\<close> of
  \<^verbatim>\<open>MockNBPT\<close>), and the log of the events both contracts emit. A Solidity mapping is a
  function defined on every key, whose default is the zero value.
\<close>

record state =
  owner :: address
  paused :: bool
  entered :: bool
  nbptToken :: address
  bridgeOperator :: address
  allocation :: AllocationConfig
  invoiceToSettlement :: "bytes32 \<Rightarrow> bytes32"
  settlements :: "bytes32 \<Rightarrow> RevenueEntry"
  totalRevenueBridged :: uint256
  totalRevenueReversed :: uint256
  settlementNonce :: uint256
  partitionBalances :: "bytes32 \<Rightarrow> address \<Rightarrow> uint256"
  partitionTotals :: "bytes32 \<Rightarrow> uint256"
  events :: "event list"

text \<open>
  What the chain supplies: the hash \<^verbatim>\<open>keccak256(abi.encodePacked(_invoiceId))\<close>, the hash
  \<^verbatim>\<open>keccak256(abi.encodePacked(_invoiceId, block.timestamp, block.chainid, nonce))\<close>, the
  chain id, the address of the contract itself, the two hashed tags \<^verbatim>\<open>SOURCE_STRIPE\<close> and
  \<^verbatim>\<open>DEST_DAO_TREASURY\<close>, and the four hashed partition identifiers of the token
  (\<^verbatim>\<open>keccak256("RESERVE")\<close>, ...). The hashes are parameters: nothing is assumed about them
  except where a theorem says so.
\<close>

record env =
  hashInvoice :: "string \<Rightarrow> bytes32"
  hashSettlement :: "string \<Rightarrow> uint256 \<Rightarrow> uint256 \<Rightarrow> uint256 \<Rightarrow> bytes32"
  chainid :: uint256
  thisAddress :: address
  SOURCE_STRIPE :: bytes32
  DEST_DAO_TREASURY :: bytes32
  PARTITION_RESERVE :: bytes32
  PARTITION_LIQUIDITY :: bytes32
  PARTITION_ENTERPRISE :: bytes32
  PARTITION_STAKING :: bytes32

text \<open>What a call carries: \<^verbatim>\<open>msg.sender\<close> and \<^verbatim>\<open>block.timestamp\<close>.\<close>

record ctx =
  msg_sender :: address
  block_timestamp :: uint256

definition BASIS_POINTS :: uint256 where
  "BASIS_POINTS = 10000"

section \<open>Checked arithmetic\<close>

definition checked_add :: "uint256 \<Rightarrow> uint256 \<Rightarrow> error + uint256" where
  "checked_add a b = (if unat a + unat b < 2 ^ 256 then Inr (a + b) else Inl Panic_Arithmetic)"

definition checked_mul :: "uint256 \<Rightarrow> uint256 \<Rightarrow> error + uint256" where
  "checked_mul a b = (if unat a * unat b < 2 ^ 256 then Inr (a * b) else Inl Panic_Arithmetic)"

definition checked_sub :: "uint256 \<Rightarrow> uint256 \<Rightarrow> error + uint256" where
  "checked_sub a b = (if unat b \<le> unat a then Inr (a - b) else Inl Panic_Arithmetic)"

section \<open>Allocation calculator\<close>

text \<open>
  \<^verbatim>\<open>_calculateAllocations\<close>: three checked products divided by \<^verbatim>\<open>BASIS_POINTS\<close> (unsigned
  division truncates), and the remainder by three checked subtractions.
\<close>

definition calculateAllocations_internal ::
  "uint256 \<Rightarrow> state \<Rightarrow> error + (uint256 \<times> uint256 \<times> uint256 \<times> uint256)" where
  "calculateAllocations_internal amt s =
     (case checked_mul amt (reserveBps (allocation s)) of Inl e \<Rightarrow> Inl e | Inr pr \<Rightarrow>
     (let reserveAmt = pr div BASIS_POINTS in
     (case checked_mul amt (liquidityBps (allocation s)) of Inl e \<Rightarrow> Inl e | Inr pl \<Rightarrow>
     (let liquidityAmt = pl div BASIS_POINTS in
     (case checked_mul amt (enterpriseBps (allocation s)) of Inl e \<Rightarrow> Inl e | Inr pe \<Rightarrow>
     (let enterpriseAmt = pe div BASIS_POINTS in
     (case checked_sub amt reserveAmt of Inl e \<Rightarrow> Inl e | Inr d1 \<Rightarrow>
     (case checked_sub d1 liquidityAmt of Inl e \<Rightarrow> Inl e | Inr d2 \<Rightarrow>
     (case checked_sub d2 enterpriseAmt of Inl e \<Rightarrow> Inl e | Inr stakingAmt \<Rightarrow>
        Inr (reserveAmt, liquidityAmt, enterpriseAmt, stakingAmt))))))))))"

text \<open>\<^verbatim>\<open>calculateAllocations\<close>, the external view.\<close>

definition calculateAllocations ::
  "uint256 \<Rightarrow> state \<Rightarrow> error + (uint256 \<times> uint256 \<times> uint256 \<times> uint256)" where
  "calculateAllocations amt s = calculateAllocations_internal amt s"

section \<open>The token: MockNBPT\<close>

text \<open>
  \<^verbatim>\<open>MockNBPT\<close>, the implementation of \<^verbatim>\<open>INBPT\<close> the test-suite deploys. It has no access
  control. \<^verbatim>\<open>issueToPartition\<close>: two checked additions, to the balance of the account and to
  the total of the partition, then the event. (\<^verbatim>\<open>MockNBPTDeployable\<close> of the deployment
  script keeps the balances only, and its burn has no \<^verbatim>\<open>require\<close>.)
\<close>

definition issueToPartition :: "bytes32 \<Rightarrow> address \<Rightarrow> uint256 \<Rightarrow> state \<Rightarrow> error + state" where
  "issueToPartition p account amt s =
     (case checked_add (partitionBalances s p account) amt of Inl e \<Rightarrow> Inl e | Inr b \<Rightarrow>
     (let s1 = s\<lparr>partitionBalances :=
                   (partitionBalances s)(p := (partitionBalances s p)(account := b))\<rparr> in
     (case checked_add (partitionTotals s1 p) amt of Inl e \<Rightarrow> Inl e | Inr t \<Rightarrow>
     (let s2 = s1\<lparr>partitionTotals := (partitionTotals s1)(p := t)\<rparr> in
        Inr (s2\<lparr>events := events s2 @ [Issued p account amt]\<rparr>)))))"

text \<open>
  \<^verbatim>\<open>burnFromPartition\<close>: the \<^verbatim>\<open>require\<close> on the balance, then two checked subtractions and
  the event.
\<close>

definition burnFromPartition :: "bytes32 \<Rightarrow> address \<Rightarrow> uint256 \<Rightarrow> state \<Rightarrow> error + state" where
  "burnFromPartition p account amt s =
     (if \<not> unat (partitionBalances s p account) \<ge> unat amt
      then Inl (RequireFailed ''Insufficient balance'')
      else
     (case checked_sub (partitionBalances s p account) amt of Inl e \<Rightarrow> Inl e | Inr b \<Rightarrow>
     (let s1 = s\<lparr>partitionBalances :=
                   (partitionBalances s)(p := (partitionBalances s p)(account := b))\<rparr> in
     (case checked_sub (partitionTotals s1 p) amt of Inl e \<Rightarrow> Inl e | Inr t \<Rightarrow>
     (let s2 = s1\<lparr>partitionTotals := (partitionTotals s1)(p := t)\<rparr> in
        Inr (s2\<lparr>events := events s2 @ [Burned p account amt]\<rparr>))))))"

definition balanceOfByPartition :: "bytes32 \<Rightarrow> address \<Rightarrow> state \<Rightarrow> uint256" where
  "balanceOfByPartition p account s = partitionBalances s p account"

definition totalSupplyByPartition :: "bytes32 \<Rightarrow> state \<Rightarrow> uint256" where
  "totalSupplyByPartition p s = partitionTotals s p"

section \<open>Modifiers\<close>

text \<open>
  A modifier wraps the body it guards. \<^verbatim>\<open>onlyOperator\<close> is the contract's own;
  \<^verbatim>\<open>onlyOwner\<close>, \<^verbatim>\<open>nonReentrant\<close>, \<^verbatim>\<open>whenNotPaused\<close> and \<^verbatim>\<open>whenPaused\<close> are those of
  OpenZeppelin v5. \<^verbatim>\<open>nonReentrant\<close> reverts when the guard is entered, enters it for the
  body and leaves it afterwards.
\<close>

definition onlyOperator :: "ctx \<Rightarrow> state \<Rightarrow> (state \<Rightarrow> error + 'a \<times> state) \<Rightarrow> error + 'a \<times> state" where
  "onlyOperator c s body =
     (if msg_sender c \<noteq> bridgeOperator s \<and> msg_sender c \<noteq> owner s then Inl Unauthorized
      else body s)"

definition onlyOwner :: "ctx \<Rightarrow> state \<Rightarrow> (state \<Rightarrow> error + 'a \<times> state) \<Rightarrow> error + 'a \<times> state" where
  "onlyOwner c s body =
     (if owner s \<noteq> msg_sender c then Inl (OwnableUnauthorizedAccount (msg_sender c))
      else body s)"

definition nonReentrant :: "state \<Rightarrow> (state \<Rightarrow> error + 'a \<times> state) \<Rightarrow> error + 'a \<times> state" where
  "nonReentrant s body =
     (if entered s then Inl ReentrancyGuardReentrantCall
      else (case body (s\<lparr>entered := True\<rparr>) of Inl e \<Rightarrow> Inl e
            | Inr (r, s') \<Rightarrow> Inr (r, s'\<lparr>entered := False\<rparr>)))"

definition whenNotPaused :: "state \<Rightarrow> (state \<Rightarrow> error + 'a \<times> state) \<Rightarrow> error + 'a \<times> state" where
  "whenNotPaused s body = (if paused s then Inl EnforcedPause else body s)"

definition whenPaused :: "state \<Rightarrow> (state \<Rightarrow> error + 'a \<times> state) \<Rightarrow> error + 'a \<times> state" where
  "whenPaused s body = (if \<not> paused s then Inl ExpectedPause else body s)"

section \<open>Internal functions\<close>

text \<open>\<^verbatim>\<open>_generateSettlementId\<close>: the nonce is incremented (checked) before it is hashed.\<close>

definition generateSettlementId :: "env \<Rightarrow> ctx \<Rightarrow> string \<Rightarrow> state \<Rightarrow> error + bytes32 \<times> state" where
  "generateSettlementId E c invId s =
     (case checked_add (settlementNonce s) 1 of Inl e \<Rightarrow> Inl e
      | Inr n \<Rightarrow> Inr (hashSettlement E invId (block_timestamp c) (chainid E) n,
                       s\<lparr>settlementNonce := n\<rparr>))"

text \<open>One guarded issuance of \<^verbatim>\<open>_issueToPartitions\<close>: nothing happens for a zero amount.\<close>

definition issueOne :: "bytes32 \<Rightarrow> bytes32 \<Rightarrow> address \<Rightarrow> uint256 \<Rightarrow> state \<Rightarrow> error + state" where
  "issueOne sid p recipient amt s =
     (if unat amt > 0 then
        (case issueToPartition p recipient amt s of Inl e \<Rightarrow> Inl e
         | Inr s' \<Rightarrow> Inr (s'\<lparr>events := events s' @ [PartitionIssued sid p recipient amt]\<rparr>))
      else Inr s)"

text \<open>\<^verbatim>\<open>_issueToPartitions\<close>: the four identifiers are read from the token.\<close>

definition issueToPartitions ::
  "env \<Rightarrow> bytes32 \<Rightarrow> address \<Rightarrow> uint256 \<Rightarrow> uint256 \<Rightarrow> uint256 \<Rightarrow> uint256 \<Rightarrow> state \<Rightarrow> error + state" where
  "issueToPartitions E sid recipient reserveAmt liquidityAmt enterpriseAmt stakingAmt s =
     (let reservePartition = PARTITION_RESERVE E;
          liquidityPartition = PARTITION_LIQUIDITY E;
          enterprisePartition = PARTITION_ENTERPRISE E;
          stakingPartition = PARTITION_STAKING E
      in
     (case issueOne sid reservePartition recipient reserveAmt s of Inl e \<Rightarrow> Inl e | Inr s1 \<Rightarrow>
     (case issueOne sid liquidityPartition recipient liquidityAmt s1 of Inl e \<Rightarrow> Inl e | Inr s2 \<Rightarrow>
     (case issueOne sid enterprisePartition recipient enterpriseAmt s2 of Inl e \<Rightarrow> Inl e | Inr s3 \<Rightarrow>
        issueOne sid stakingPartition recipient stakingAmt s3))))"

text \<open>One guarded burn of \<^verbatim>\<open>_burnFromPartitions\<close>.\<close>

definition burnOne :: "bytes32 \<Rightarrow> address \<Rightarrow> uint256 \<Rightarrow> state \<Rightarrow> error + state" where
  "burnOne p account amt s =
     (if unat amt > 0 then burnFromPartition p account amt s else Inr s)"

definition burnFromPartitions ::
  "env \<Rightarrow> address \<Rightarrow> uint256 \<Rightarrow> uint256 \<Rightarrow> uint256 \<Rightarrow> uint256 \<Rightarrow> state \<Rightarrow> error + state" where
  "burnFromPartitions E account reserveAmt liquidityAmt enterpriseAmt stakingAmt s =
     (case burnOne (PARTITION_RESERVE E) account reserveAmt s of Inl e \<Rightarrow> Inl e | Inr s1 \<Rightarrow>
     (case burnOne (PARTITION_LIQUIDITY E) account liquidityAmt s1 of Inl e \<Rightarrow> Inl e | Inr s2 \<Rightarrow>
     (case burnOne (PARTITION_ENTERPRISE E) account enterpriseAmt s2 of Inl e \<Rightarrow> Inl e | Inr s3 \<Rightarrow>
        burnOne (PARTITION_STAKING E) account stakingAmt s3)))"

section \<open>Operator functions\<close>

text \<open>The body of \<^verbatim>\<open>bridgeRevenue\<close>, in the order of the source.\<close>

definition bridgeRevenue_body ::
  "env \<Rightarrow> ctx \<Rightarrow> string \<Rightarrow> uint256 \<Rightarrow> address \<Rightarrow> address \<Rightarrow> address \<Rightarrow> bytes32 \<Rightarrow> bytes32 \<Rightarrow>
   state \<Rightarrow> error + bytes32 \<times> state" where
  "bridgeRevenue_body E c invId amt payer' benef cur src dst s =
     (if amt = 0 then Inl ZeroAmount
      else if benef = 0 then Inl ZeroAddress
      else if invoiceToSettlement s (hashInvoice E invId) \<noteq> 0 then Inl (InvoiceAlreadyProcessed invId)
      else
     (case generateSettlementId E c invId s of Inl e \<Rightarrow> Inl e | Inr (sid, s1) \<Rightarrow>
     (case calculateAllocations_internal amt s1 of Inl e \<Rightarrow> Inl e
      | Inr (reserveAmt, liquidityAmt, enterpriseAmt, stakingAmt) \<Rightarrow>
     (let s2 = s1\<lparr>settlements := (settlements s1)(sid :=
                  \<lparr>invoiceId = invId, payer = payer', beneficiary = benef, amount = amt,
                   currency = cur, sourceSystem = src, destinationSystem = dst,
                   settlementId = sid, status = SETTLED,
                   bridgedAt = block_timestamp c, settledAt = block_timestamp c\<rparr>)\<rparr>;
          s3 = s2\<lparr>invoiceToSettlement := (invoiceToSettlement s2)(hashInvoice E invId := sid)\<rparr>
      in
     (case checked_add (totalRevenueBridged s3) amt of Inl e \<Rightarrow> Inl e | Inr newTotal \<Rightarrow>
     (case issueToPartitions E sid benef reserveAmt liquidityAmt enterpriseAmt stakingAmt
             (s3\<lparr>totalRevenueBridged := newTotal\<rparr>) of Inl e \<Rightarrow> Inl e
      | Inr s5 \<Rightarrow>
        Inr (sid, s5\<lparr>events := events s5 @
               [RevenueBridged invId payer' benef amt cur src dst sid (block_timestamp c)]\<rparr>)))))))"

definition bridgeRevenue ::
  "env \<Rightarrow> ctx \<Rightarrow> string \<Rightarrow> uint256 \<Rightarrow> address \<Rightarrow> address \<Rightarrow> address \<Rightarrow> bytes32 \<Rightarrow> bytes32 \<Rightarrow>
   state \<Rightarrow> error + bytes32 \<times> state" where
  "bridgeRevenue E c invId amt payer' benef cur src dst s =
     onlyOperator c s (\<lambda>s. nonReentrant s (\<lambda>s. whenNotPaused s
       (bridgeRevenue_body E c invId amt payer' benef cur src dst)))"

text \<open>
  \<^verbatim>\<open>bridgeStripeRevenue\<close> calls \<^verbatim>\<open>this.bridgeRevenue(...)\<close>: an external call of the contract
  to itself, inside its own three modifiers. In the called function \<^verbatim>\<open>msg.sender\<close> is the
  address of the contract; the storage, and so the reentrancy guard, is the caller's; a
  revert of the callee reverts the caller.
\<close>

definition bridgeStripeRevenue ::
  "env \<Rightarrow> ctx \<Rightarrow> string \<Rightarrow> uint256 \<Rightarrow> address \<Rightarrow> state \<Rightarrow> error + bytes32 \<times> state" where
  "bridgeStripeRevenue E c invId amt benef s =
     onlyOperator c s (\<lambda>s. nonReentrant s (\<lambda>s. whenNotPaused s
       (bridgeRevenue E (c\<lparr>msg_sender := thisAddress E\<rparr>) invId amt 0 benef 0
          (SOURCE_STRIPE E) (DEST_DAO_TREASURY E))))"

text \<open>
  The body of \<^verbatim>\<open>reverseSettlement\<close>. \<^verbatim>\<open>entry\<close> is a storage reference: the amount and the
  beneficiary it reads after the status is written are those of the stored record.
\<close>

definition reverseSettlement_body ::
  "env \<Rightarrow> ctx \<Rightarrow> bytes32 \<Rightarrow> bytes32 \<Rightarrow> state \<Rightarrow> error + unit \<times> state" where
  "reverseSettlement_body E c sid reason s =
     (let entry = settlements s sid in
      if bridgedAt entry = 0 then Inl (SettlementNotFound sid)
      else if status entry \<noteq> SETTLED then Inl (InvalidSettlementStatus sid (status entry) SETTLED)
      else
     (let oldStatus = status entry;
          s1 = s\<lparr>settlements := (settlements s)(sid := entry\<lparr>status := REVERSED\<rparr>)\<rparr>
      in
     (case checked_add (totalRevenueReversed s1) (amount (settlements s1 sid)) of Inl e \<Rightarrow> Inl e
      | Inr newTotal \<Rightarrow>
     (let s2 = s1\<lparr>totalRevenueReversed := newTotal\<rparr> in
     (case calculateAllocations_internal (amount (settlements s2 sid)) s2 of Inl e \<Rightarrow> Inl e
      | Inr (reserveAmt, liquidityAmt, enterpriseAmt, stakingAmt) \<Rightarrow>
     (case burnFromPartitions E (beneficiary (settlements s2 sid))
             reserveAmt liquidityAmt enterpriseAmt stakingAmt s2 of Inl e \<Rightarrow> Inl e
      | Inr s3 \<Rightarrow>
        Inr ((), s3\<lparr>events := events s3 @
               [SettlementStatusChanged sid oldStatus REVERSED,
                RevenueReversed sid (invoiceId (settlements s3 sid)) (msg_sender c) reason
                  (block_timestamp c)]\<rparr>)))))))"

definition reverseSettlement ::
  "env \<Rightarrow> ctx \<Rightarrow> bytes32 \<Rightarrow> bytes32 \<Rightarrow> state \<Rightarrow> error + unit \<times> state" where
  "reverseSettlement E c sid reason s =
     onlyOperator c s (\<lambda>s. nonReentrant s (\<lambda>s. whenNotPaused s
       (reverseSettlement_body E c sid reason)))"

text \<open>\<^verbatim>\<open>disputeSettlement\<close> carries \<^verbatim>\<open>onlyOperator\<close> and no other modifier.\<close>

definition disputeSettlement :: "ctx \<Rightarrow> bytes32 \<Rightarrow> state \<Rightarrow> error + unit \<times> state" where
  "disputeSettlement c sid s =
     onlyOperator c s (\<lambda>s.
       (let entry = settlements s sid in
        if bridgedAt entry = 0 then Inl (SettlementNotFound sid)
        else
       (let oldStatus = status entry;
            s1 = s\<lparr>settlements := (settlements s)(sid := entry\<lparr>status := DISPUTED\<rparr>)\<rparr>
        in Inr ((), s1\<lparr>events := events s1 @
                   [SettlementStatusChanged sid oldStatus DISPUTED]\<rparr>))))"

section \<open>Admin functions\<close>

definition setOperator :: "ctx \<Rightarrow> address \<Rightarrow> state \<Rightarrow> error + unit \<times> state" where
  "setOperator c newOperator s =
     onlyOwner c s (\<lambda>s.
       if newOperator = 0 then Inl ZeroAddress
       else
      (let oldOperator = bridgeOperator s;
           s1 = s\<lparr>bridgeOperator := newOperator\<rparr>
       in Inr ((), s1\<lparr>events := events s1 @ [OperatorUpdated oldOperator newOperator]\<rparr>)))"

text \<open>\<^verbatim>\<open>setAllocation\<close>: the sum is three checked additions, left to right.\<close>

definition setAllocation ::
  "ctx \<Rightarrow> uint256 \<Rightarrow> uint256 \<Rightarrow> uint256 \<Rightarrow> uint256 \<Rightarrow> state \<Rightarrow> error + unit \<times> state" where
  "setAllocation c rBps lBps eBps kBps s =
     onlyOwner c s (\<lambda>s.
      (case checked_add rBps lBps of Inl e \<Rightarrow> Inl e | Inr sum2 \<Rightarrow>
      (case checked_add sum2 eBps of Inl e \<Rightarrow> Inl e | Inr sum3 \<Rightarrow>
      (case checked_add sum3 kBps of Inl e \<Rightarrow> Inl e | Inr sum4 \<Rightarrow>
        if sum4 \<noteq> BASIS_POINTS then Inl InvalidPercentages
        else
       (let s' = s\<lparr>allocation := \<lparr>reserveBps = rBps, liquidityBps = lBps,
                                   enterpriseBps = eBps, stakingBps = kBps\<rparr>\<rparr>
        in Inr ((), s'\<lparr>events := events s' @ [AllocationUpdated rBps lBps eBps kBps]\<rparr>))))))"

definition pause :: "ctx \<Rightarrow> state \<Rightarrow> error + unit \<times> state" where
  "pause c s =
     onlyOwner c s (\<lambda>s. whenNotPaused s (\<lambda>s.
       Inr ((), s\<lparr>paused := True, events := events s @ [Paused (msg_sender c)]\<rparr>)))"

definition unpause :: "ctx \<Rightarrow> state \<Rightarrow> error + unit \<times> state" where
  "unpause c s =
     onlyOwner c s (\<lambda>s. whenPaused s (\<lambda>s.
       Inr ((), s\<lparr>paused := False, events := events s @ [Unpaused (msg_sender c)]\<rparr>)))"

text \<open>\<^verbatim>\<open>transferOwnership\<close> and \<^verbatim>\<open>renounceOwnership\<close>, inherited from \<^verbatim>\<open>Ownable\<close>.\<close>

definition transferOwnership :: "ctx \<Rightarrow> address \<Rightarrow> state \<Rightarrow> error + unit \<times> state" where
  "transferOwnership c newOwner s =
     onlyOwner c s (\<lambda>s.
       if newOwner = 0 then Inl (OwnableInvalidOwner 0)
       else Inr ((), s\<lparr>owner := newOwner,
                       events := events s @ [OwnershipTransferred (owner s) newOwner]\<rparr>))"

definition renounceOwnership :: "ctx \<Rightarrow> state \<Rightarrow> error + unit \<times> state" where
  "renounceOwnership c s =
     onlyOwner c s (\<lambda>s.
       Inr ((), s\<lparr>owner := 0, events := events s @ [OwnershipTransferred (owner s) 0]\<rparr>))"

section \<open>Constructor\<close>

definition zeroEntry :: RevenueEntry where
  "zeroEntry = \<lparr>invoiceId = [], payer = 0, beneficiary = 0, amount = 0, currency = 0,
                sourceSystem = 0, destinationSystem = 0, settlementId = 0, status = PENDING,
                bridgedAt = 0, settledAt = 0\<rparr>"

text \<open>
  The constructor of \<^verbatim>\<open>Ownable\<close> runs first and rejects a zero owner; then the body. The
  balances and totals of the token contract at deployment are whatever they are.
\<close>

definition constructor ::
  "address \<Rightarrow> address \<Rightarrow> address \<Rightarrow> (bytes32 \<Rightarrow> address \<Rightarrow> uint256) \<Rightarrow> (bytes32 \<Rightarrow> uint256) \<Rightarrow>
   error + state" where
  "constructor token operator owner0 bal tot =
     (if owner0 = 0 then Inl (OwnableInvalidOwner 0)
      else if token = 0 then Inl ZeroAddress
      else if operator = 0 then Inl ZeroAddress
      else if owner0 = 0 then Inl ZeroAddress
      else Inr \<lparr>owner = owner0, paused = False, entered = False, nbptToken = token,
                bridgeOperator = operator,
                allocation = \<lparr>reserveBps = 4000, liquidityBps = 3000,
                              enterpriseBps = 2000, stakingBps = 1000\<rparr>,
                invoiceToSettlement = (\<lambda>_. 0), settlements = (\<lambda>_. zeroEntry),
                totalRevenueBridged = 0, totalRevenueReversed = 0, settlementNonce = 0,
                partitionBalances = bal, partitionTotals = tot,
                events = [OwnershipTransferred 0 owner0, OperatorUpdated 0 operator,
                          AllocationUpdated 4000 3000 2000 1000]\<rparr>)"

section \<open>Views\<close>

definition getSettlement :: "bytes32 \<Rightarrow> state \<Rightarrow> RevenueEntry" where
  "getSettlement sid s = settlements s sid"

definition getSettlementByInvoice :: "env \<Rightarrow> string \<Rightarrow> state \<Rightarrow> bytes32" where
  "getSettlementByInvoice E invId s = invoiceToSettlement s (hashInvoice E invId)"

definition isInvoiceProcessed :: "env \<Rightarrow> string \<Rightarrow> state \<Rightarrow> bool" where
  "isInvoiceProcessed E invId s = (invoiceToSettlement s (hashInvoice E invId) \<noteq> 0)"

definition netRevenue :: "state \<Rightarrow> error + uint256" where
  "netRevenue s = checked_sub (totalRevenueBridged s) (totalRevenueReversed s)"

section \<open>Transactions\<close>

text \<open>
  The external calls that can reach the contract, and a step of its environment: the token
  is a contract of its own, anyone can call it, and its balances and totals can change
  without the bridge.
\<close>

datatype call =
    BridgeRevenue string uint256 address address address bytes32 bytes32
  | BridgeStripeRevenue string uint256 address
  | ReverseSettlement bytes32 bytes32
  | DisputeSettlement bytes32
  | SetOperator address
  | SetAllocation uint256 uint256 uint256 uint256
  | Pause
  | Unpause
  | TransferOwnership address
  | RenounceOwnership
  | TokenActivity "bytes32 \<Rightarrow> address \<Rightarrow> uint256" "bytes32 \<Rightarrow> uint256"

definition dropResult :: "error + 'a \<times> state \<Rightarrow> error + state" where
  "dropResult r = (case r of Inl e \<Rightarrow> Inl e | Inr (_, s) \<Rightarrow> Inr s)"

fun exec :: "env \<Rightarrow> ctx \<Rightarrow> call \<Rightarrow> state \<Rightarrow> error + state" where
  "exec E c (BridgeRevenue invId amt payer' benef cur src dst) s =
     dropResult (bridgeRevenue E c invId amt payer' benef cur src dst s)"
| "exec E c (BridgeStripeRevenue invId amt benef) s =
     dropResult (bridgeStripeRevenue E c invId amt benef s)"
| "exec E c (ReverseSettlement sid reason) s = dropResult (reverseSettlement E c sid reason s)"
| "exec E c (DisputeSettlement sid) s = dropResult (disputeSettlement c sid s)"
| "exec E c (SetOperator a) s = dropResult (setOperator c a s)"
| "exec E c (SetAllocation r l e k) s = dropResult (setAllocation c r l e k s)"
| "exec E c Pause s = dropResult (pause c s)"
| "exec E c Unpause s = dropResult (unpause c s)"
| "exec E c (TransferOwnership a) s = dropResult (transferOwnership c a s)"
| "exec E c RenounceOwnership s = dropResult (renounceOwnership c s)"
| "exec E c (TokenActivity bal tot) s =
     Inr (s\<lparr>partitionBalances := bal, partitionTotals := tot\<rparr>)"

text \<open>A transaction: a call that reverts leaves the state as it was.\<close>

definition step :: "env \<Rightarrow> ctx \<times> call \<Rightarrow> state \<Rightarrow> state" where
  "step E tx s = (case exec E (fst tx) (snd tx) s of Inl e \<Rightarrow> s | Inr s' \<Rightarrow> s')"

fun run :: "env \<Rightarrow> (ctx \<times> call) list \<Rightarrow> state \<Rightarrow> state" where
  "run E [] s = s"
| "run E (tx # txs) s = run E txs (step E tx s)"

text \<open>The states the contract can be in: deployed, then any transactions.\<close>

inductive reachable :: "env \<Rightarrow> state \<Rightarrow> bool" for E :: env where
  deployed: "constructor token operator owner0 bal tot = Inr s \<Longrightarrow> reachable E s"
| transact: "reachable E s \<Longrightarrow> reachable E (step E tx s)"

section \<open>Auxiliary definitions for the proofs\<close>

text \<open>
  What an issuance or a burn leaves alone: everything but the storage of the token and the
  log.
\<close>

definition frame :: "state \<Rightarrow> state \<Rightarrow> bool" where
  "frame s s' \<longleftrightarrow>
     owner s' = owner s \<and> paused s' = paused s \<and> entered s' = entered s \<and>
     nbptToken s' = nbptToken s \<and> bridgeOperator s' = bridgeOperator s \<and>
     allocation s' = allocation s \<and> invoiceToSettlement s' = invoiceToSettlement s \<and>
     settlements s' = settlements s \<and> totalRevenueBridged s' = totalRevenueBridged s \<and>
     totalRevenueReversed s' = totalRevenueReversed s \<and> settlementNonce s' = settlementNonce s"

text \<open>The amount of a four-way split that goes to a partition identifier.\<close>

definition splitAmount :: "env \<Rightarrow> uint256 \<Rightarrow> uint256 \<Rightarrow> uint256 \<Rightarrow> uint256 \<Rightarrow> bytes32 \<Rightarrow> uint256" where
  "splitAmount E r l e k q =
     (if q = PARTITION_RESERVE E then r
      else if q = PARTITION_LIQUIDITY E then l
      else if q = PARTITION_ENTERPRISE E then e
      else if q = PARTITION_STAKING E then k
      else 0)"

text \<open>The four partition identifiers differ, as the hashes of four different names do.\<close>

definition partitionsDistinct :: "env \<Rightarrow> bool" where
  "partitionsDistinct E \<longleftrightarrow>
     distinct [PARTITION_RESERVE E, PARTITION_LIQUIDITY E, PARTITION_ENTERPRISE E,
               PARTITION_STAKING E]"

text \<open>The caller passes \<^verbatim>\<open>onlyOperator\<close>.\<close>

definition authorized :: "ctx \<Rightarrow> state \<Rightarrow> bool" where
  "authorized c s \<longleftrightarrow> msg_sender c = bridgeOperator s \<or> msg_sender c = owner s"

definition allocationSum :: "state \<Rightarrow> nat" where
  "allocationSum s = unat (reserveBps (allocation s)) + unat (liquidityBps (allocation s))
                   + unat (enterpriseBps (allocation s)) + unat (stakingBps (allocation s))"

text \<open>
  What one transaction can do to the ledger part of the state (the settlements, the invoice
  index, the two totals, the nonce, the guard and the allocation): nothing, or a new
  allocation of sum 10000, or one of the three ledger operations.
\<close>

inductive ledgerStep :: "env \<Rightarrow> state \<Rightarrow> state \<Rightarrow> bool" for E :: env where
  ledger_kept:
    "settlements s' = settlements s \<Longrightarrow> invoiceToSettlement s' = invoiceToSettlement s \<Longrightarrow>
     totalRevenueBridged s' = totalRevenueBridged s \<Longrightarrow>
     totalRevenueReversed s' = totalRevenueReversed s \<Longrightarrow>
     settlementNonce s' = settlementNonce s \<Longrightarrow> entered s' = entered s \<Longrightarrow>
     allocation s' = allocation s \<or> allocationSum s' = 10000 \<Longrightarrow>
     ledgerStep E s s'"
| ledger_created:
    "unat (settlementNonce s) + 1 < 2 ^ 256 \<Longrightarrow>
     sid = hashSettlement E i t (chainid E) (settlementNonce s + 1) \<Longrightarrow>
     invoiceToSettlement s h = 0 \<Longrightarrow>
     unat (totalRevenueBridged s) + unat (amount entry) < 2 ^ 256 \<Longrightarrow>
     status entry = SETTLED \<Longrightarrow>
     settlements s' = (settlements s)(sid := entry) \<Longrightarrow>
     invoiceToSettlement s' = (invoiceToSettlement s)(h := sid) \<Longrightarrow>
     totalRevenueBridged s' = totalRevenueBridged s + amount entry \<Longrightarrow>
     totalRevenueReversed s' = totalRevenueReversed s \<Longrightarrow>
     settlementNonce s' = settlementNonce s + 1 \<Longrightarrow> entered s' = entered s \<Longrightarrow>
     allocation s' = allocation s \<Longrightarrow>
     ledgerStep E s s'"
| ledger_reversed:
    "bridgedAt (settlements s sid) \<noteq> 0 \<Longrightarrow> status (settlements s sid) = SETTLED \<Longrightarrow>
     unat (totalRevenueReversed s) + unat (amount (settlements s sid)) < 2 ^ 256 \<Longrightarrow>
     settlements s' = (settlements s)(sid := (settlements s sid)\<lparr>status := REVERSED\<rparr>) \<Longrightarrow>
     invoiceToSettlement s' = invoiceToSettlement s \<Longrightarrow>
     totalRevenueBridged s' = totalRevenueBridged s \<Longrightarrow>
     totalRevenueReversed s' = totalRevenueReversed s + amount (settlements s sid) \<Longrightarrow>
     settlementNonce s' = settlementNonce s \<Longrightarrow> entered s' = entered s \<Longrightarrow>
     allocation s' = allocation s \<Longrightarrow>
     ledgerStep E s s'"
| ledger_disputed:
    "bridgedAt (settlements s sid) \<noteq> 0 \<Longrightarrow>
     settlements s' = (settlements s)(sid := (settlements s sid)\<lparr>status := DISPUTED\<rparr>) \<Longrightarrow>
     invoiceToSettlement s' = invoiceToSettlement s \<Longrightarrow>
     totalRevenueBridged s' = totalRevenueBridged s \<Longrightarrow>
     totalRevenueReversed s' = totalRevenueReversed s \<Longrightarrow>
     settlementNonce s' = settlementNonce s \<Longrightarrow> entered s' = entered s \<Longrightarrow>
     allocation s' = allocation s \<Longrightarrow>
     ledgerStep E s s'"

text \<open>The amounts of the settlements that are SETTLED, summed over all identifiers.\<close>

definition settledAmount :: "RevenueEntry \<Rightarrow> nat" where
  "settledAmount en = (if status en = SETTLED then unat (amount en) else 0)"

definition settledTotal :: "state \<Rightarrow> nat" where
  "settledTotal s = (\<Sum>sid\<in>UNIV. settledAmount (settlements s sid))"

text \<open>
  The status changes the code performs in one transaction: creation out of the default
  record (status PENDING, the zero value), reversal of a SETTLED record, and a dispute of
  any existing record.
\<close>

fun transitionAllowed :: "SettlementStatus \<Rightarrow> SettlementStatus \<Rightarrow> bool" where
  "transitionAllowed PENDING new = (new = PENDING \<or> new = SETTLED)"
| "transitionAllowed SETTLED new = (new = SETTLED \<or> new = REVERSED \<or> new = DISPUTED)"
| "transitionAllowed REVERSED new = (new = REVERSED \<or> new = DISPUTED)"
| "transitionAllowed DISPUTED new = (new = DISPUTED)"

text \<open>
  The identifier a transaction generates is fresh: no settlement is stored under it. Only
  \<^verbatim>\<open>bridgeRevenue\<close> generates one, from its invoice, the block timestamp, the chain id and
  the next nonce. Along a list of transactions: each one's identifier is fresh in the state
  it runs in.
\<close>

definition idFresh :: "env \<Rightarrow> ctx \<times> call \<Rightarrow> state \<Rightarrow> bool" where
  "idFresh E tx s =
     (case snd tx of
        BridgeRevenue invId amt payer' benef cur src dst \<Rightarrow>
          status (settlements s (hashSettlement E invId (block_timestamp (fst tx)) (chainid E)
                                   (settlementNonce s + 1))) = PENDING
      | _ \<Rightarrow> True)"

fun idsFresh :: "env \<Rightarrow> (ctx \<times> call) list \<Rightarrow> state \<Rightarrow> bool" where
  "idsFresh E [] s = True"
| "idsFresh E (tx # txs) s = (idFresh E tx s \<and> idsFresh E txs (step E tx s))"

text \<open>Every record with a non-zero \<^verbatim>\<open>bridgedAt\<close> has left the default status.\<close>

definition existingNotPending :: "state \<Rightarrow> bool" where
  "existingNotPending s \<longleftrightarrow>
     (\<forall>sid. bridgedAt (settlements s sid) \<noteq> 0 \<longrightarrow> status (settlements s sid) \<noteq> PENDING)"

section \<open>A concrete deployment\<close>

text \<open>
  The deployment of the test-suite: owner 1, operator 2, treasury 3, payer 4, a stranger 5,
  block timestamp 1, a token with no balances yet. The stand-in for the hash of an invoice
  reads its bytes as a number; the stand-in for the hash behind a settlement identifier is
  the nonce; the four partition identifiers are 101 to 104.
\<close>

fun bytesCode :: "string \<Rightarrow> uint256" where
  "bytesCode [] = 1"
| "bytesCode (ch # cs) = of_char ch + 256 * bytesCode cs"

definition E0 :: env where
  "E0 = \<lparr>hashInvoice = bytesCode, hashSettlement = (\<lambda>i t c n. n), chainid = 1,
         thisAddress = 11, SOURCE_STRIPE = 81, DEST_DAO_TREASURY = 82,
         PARTITION_RESERVE = 101, PARTITION_LIQUIDITY = 102, PARTITION_ENTERPRISE = 103,
         PARTITION_STAKING = 104\<rparr>"

definition asOwner :: ctx where
  "asOwner = \<lparr>msg_sender = 1, block_timestamp = 1\<rparr>"

definition asOperator :: ctx where
  "asOperator = \<lparr>msg_sender = 2, block_timestamp = 1\<rparr>"

definition deployed0 :: state where
  "deployed0 = \<lparr>owner = 1, paused = False, entered = False, nbptToken = 16,
                bridgeOperator = 2,
                allocation = \<lparr>reserveBps = 4000, liquidityBps = 3000,
                              enterpriseBps = 2000, stakingBps = 1000\<rparr>,
                invoiceToSettlement = (\<lambda>_. 0), settlements = (\<lambda>_. zeroEntry),
                totalRevenueBridged = 0, totalRevenueReversed = 0, settlementNonce = 0,
                partitionBalances = (\<lambda>_ _. 0), partitionTotals = (\<lambda>_. 0),
                events = [OwnershipTransferred 0 1, OperatorUpdated 0 2,
                          AllocationUpdated 4000 3000 2000 1000]\<rparr>"

definition bridge1 :: "ctx \<times> call" where
  "bridge1 = (asOperator, BridgeRevenue ''inv_1'' 10000 4 3 0 81 82)"

definition bridge2 :: "ctx \<times> call" where
  "bridge2 = (asOperator, BridgeRevenue ''inv_2'' 10000 4 3 0 81 82)"

definition realloc :: "ctx \<times> call" where
  "realloc = (asOwner, SetAllocation 5000 2500 1500 1000)"

definition reverse1 :: "ctx \<times> call" where
  "reverse1 = (asOperator, ReverseSettlement 1 7)"

definition reverse2 :: "ctx \<times> call" where
  "reverse2 = (asOperator, ReverseSettlement 2 7)"

definition dispute1 :: "ctx \<times> call" where
  "dispute1 = (asOperator, DisputeSettlement 1)"

definition pauseByOwner :: "ctx \<times> call" where
  "pauseByOwner = (asOwner, Pause)"

section \<open>Arithmetic and frame lemmas\<close>

lemmas model_defs =
  bridgeRevenue_def bridgeRevenue_body_def bridgeStripeRevenue_def reverseSettlement_def
  reverseSettlement_body_def disputeSettlement_def setOperator_def setAllocation_def
  pause_def unpause_def transferOwnership_def renounceOwnership_def
  onlyOperator_def onlyOwner_def nonReentrant_def whenNotPaused_def whenPaused_def
  generateSettlementId_def calculateAllocations_def calculateAllocations_internal_def
  issueToPartitions_def issueOne_def issueToPartition_def
  burnFromPartitions_def burnOne_def burnFromPartition_def
  checked_add_def checked_mul_def checked_sub_def BASIS_POINTS_def
  dropResult_def step_def Let_def

lemmas scenario_defs =
  E0_def asOwner_def asOperator_def deployed0_def bridge1_def bridge2_def realloc_def
  reverse1_def reverse2_def dispute1_def pauseByOwner_def

lemma unat_mul_fits:
  "unat (a::uint256) * unat b < 2 ^ 256 \<Longrightarrow> unat (a * b) = unat a * unat b"
  using unat_mult_lem [of a b] by simp

lemma unat_add_fits:
  "unat (a::uint256) + unat b < 2 ^ 256 \<Longrightarrow> unat (a + b) = unat a + unat b"
  using unat_add_lem [of a b] by simp

lemma unat_sub_fits:
  "unat (b::uint256) \<le> unat a \<Longrightarrow> unat (a - b) = unat a - unat b"
  by (simp add: unat_sub word_le_nat_alt)

lemma unat_div_bp: "unat ((p::uint256) div BASIS_POINTS) = unat p div 10000"
  by (simp add: BASIS_POINTS_def unat_div)

lemma three_floors:
  fixes a r l e :: nat
  assumes "r + l + e \<le> 10000"
  shows "a * r div 10000 + a * l div 10000 + a * e div 10000 \<le> a"
proof -
  have "a * r div 10000 * 10000 \<le> a * r" "a * l div 10000 * 10000 \<le> a * l"
       "a * e div 10000 * 10000 \<le> a * e" by simp_all
  then have "(a * r div 10000 + a * l div 10000 + a * e div 10000) * 10000 \<le> a * (r + l + e)"
    by (simp add: algebra_simps)
  also have "\<dots> \<le> a * 10000" using assms by simp
  finally show ?thesis by simp
qed

lemma calc_internal_ok:
  assumes sum: "unat (reserveBps (allocation s)) + unat (liquidityBps (allocation s))
              + unat (enterpriseBps (allocation s)) \<le> 10000"
    and fr: "unat amt * unat (reserveBps (allocation s)) < 2 ^ 256"
    and fl: "unat amt * unat (liquidityBps (allocation s)) < 2 ^ 256"
    and fe: "unat amt * unat (enterpriseBps (allocation s)) < 2 ^ 256"
  shows "\<exists>r l e k. calculateAllocations_internal amt s = Inr (r, l, e, k)
           \<and> unat r = unat amt * unat (reserveBps (allocation s)) div 10000
           \<and> unat l = unat amt * unat (liquidityBps (allocation s)) div 10000
           \<and> unat e = unat amt * unat (enterpriseBps (allocation s)) div 10000
           \<and> unat k = unat amt - unat r - unat l - unat e
           \<and> unat r + unat l + unat e + unat k = unat amt"
proof -
  define r where "r = amt * reserveBps (allocation s) div BASIS_POINTS"
  define l where "l = amt * liquidityBps (allocation s) div BASIS_POINTS"
  define e where "e = amt * enterpriseBps (allocation s) div BASIS_POINTS"
  have ur: "unat r = unat amt * unat (reserveBps (allocation s)) div 10000"
    by (simp add: r_def unat_div_bp unat_mul_fits [OF fr])
  have ul: "unat l = unat amt * unat (liquidityBps (allocation s)) div 10000"
    by (simp add: l_def unat_div_bp unat_mul_fits [OF fl])
  have ue: "unat e = unat amt * unat (enterpriseBps (allocation s)) div 10000"
    by (simp add: e_def unat_div_bp unat_mul_fits [OF fe])
  have le: "unat r + unat l + unat e \<le> unat amt"
    unfolding ur ul ue by (rule three_floors [OF sum])
  have s1: "checked_sub amt r = Inr (amt - r)" and u1: "unat (amt - r) = unat amt - unat r"
    using le by (simp_all add: checked_sub_def unat_sub_fits)
  have s2: "checked_sub (amt - r) l = Inr (amt - r - l)"
    and u2: "unat (amt - r - l) = unat amt - unat r - unat l"
    using le u1 by (simp_all add: checked_sub_def unat_sub_fits)
  have s3: "checked_sub (amt - r - l) e = Inr (amt - r - l - e)"
    and u3: "unat (amt - r - l - e) = unat amt - unat r - unat l - unat e"
    using le u2 by (simp_all add: checked_sub_def unat_sub_fits)
  have "calculateAllocations_internal amt s = Inr (r, l, e, amt - r - l - e)"
    using fr fl fe s1 s2 s3
    by (simp add: calculateAllocations_internal_def checked_mul_def Let_def
        r_def [symmetric] l_def [symmetric] e_def [symmetric])
  moreover have "unat r + unat l + unat e + unat (amt - r - l - e) = unat amt"
    using le u3 by simp
  ultimately show ?thesis using ur ul ue u3 by blast
qed

lemma calc_internal_overflow:
  assumes "\<not> (unat amt * unat (reserveBps (allocation s)) < 2 ^ 256
            \<and> unat amt * unat (liquidityBps (allocation s)) < 2 ^ 256
            \<and> unat amt * unat (enterpriseBps (allocation s)) < 2 ^ 256)"
  shows "calculateAllocations_internal amt s = Inl Panic_Arithmetic"
  using assms
  by (auto simp: calculateAllocations_internal_def checked_mul_def checked_sub_def Let_def
      split: sum.splits)

lemma deployed0_constructed: "constructor 16 2 1 (\<lambda>_ _. 0) (\<lambda>_. 0) = Inr deployed0"
  by (simp add: constructor_def deployed0_def)

lemma reachable_deployed0: "reachable E deployed0"
  by (rule reachable.deployed [OF deployed0_constructed])

section \<open>The allocation calculator\<close>

text \<open>
  Claim C1, as stated, at the amount \<open>2 ^ 255\<close> under the default configuration: the
  weights sum to 10000, and the call does not return four sub-amounts; the checked product
  \<^verbatim>\<open>_amount * allocation.reserveBps\<close> overflows and the call reverts.
\<close>

theorem calculateAllocations_overflow_counterexample:
  "allocationSum deployed0 = 10000 \<and> calculateAllocations (2 ^ 255) deployed0 = Inl Panic_Arithmetic"
  by (simp add: allocationSum_def model_defs scenario_defs)

text \<open>
  Claim C1, amended. Under a configuration whose four weights sum to 10000:
  for every amount whose three products with the reserve, liquidity and enterprise weights
  fit into 256 bits, \<^verbatim>\<open>calculateAllocations\<close> returns four sub-amounts, the first three
  the truncated quotients \<open>amount * bps div 10000\<close>, the fourth the remainder
  \<open>amount - reserve - liquidity - enterprise\<close>, and their sum is the amount exactly;
  for every other amount it reverts with the arithmetic panic. For the amount 99 under the
  default configuration it returns 39, 29, 19 and 12, and for the amount 0 four zeros.
\<close>

theorem calculateAllocations_no_dust:
  assumes "allocationSum s = 10000"
  shows "(unat amt * unat (reserveBps (allocation s)) < 2 ^ 256 \<and>
          unat amt * unat (liquidityBps (allocation s)) < 2 ^ 256 \<and>
          unat amt * unat (enterpriseBps (allocation s)) < 2 ^ 256 \<longrightarrow>
            (\<exists>r l e k. calculateAllocations amt s = Inr (r, l, e, k)
               \<and> unat r = unat amt * unat (reserveBps (allocation s)) div 10000
               \<and> unat l = unat amt * unat (liquidityBps (allocation s)) div 10000
               \<and> unat e = unat amt * unat (enterpriseBps (allocation s)) div 10000
               \<and> unat k = unat amt - unat r - unat l - unat e
               \<and> unat r + unat l + unat e + unat k = unat amt))
       \<and> (\<not> (unat amt * unat (reserveBps (allocation s)) < 2 ^ 256 \<and>
             unat amt * unat (liquidityBps (allocation s)) < 2 ^ 256 \<and>
             unat amt * unat (enterpriseBps (allocation s)) < 2 ^ 256) \<longrightarrow>
            calculateAllocations amt s = Inl Panic_Arithmetic)
       \<and> (allocation s = \<lparr>reserveBps = 4000, liquidityBps = 3000,
                           enterpriseBps = 2000, stakingBps = 1000\<rparr> \<longrightarrow>
            calculateAllocations 99 s = Inr (39, 29, 19, 12))
       \<and> calculateAllocations 0 s = Inr (0, 0, 0, 0)"
proof (intro conjI impI)
  assume fits: "unat amt * unat (reserveBps (allocation s)) < 2 ^ 256 \<and>
          unat amt * unat (liquidityBps (allocation s)) < 2 ^ 256 \<and>
          unat amt * unat (enterpriseBps (allocation s)) < 2 ^ 256"
  have "unat (reserveBps (allocation s)) + unat (liquidityBps (allocation s))
              + unat (enterpriseBps (allocation s)) \<le> 10000"
    using assms by (simp add: allocationSum_def)
  from calc_internal_ok [OF this] fits
  show "\<exists>r l e k. calculateAllocations amt s = Inr (r, l, e, k)
               \<and> unat r = unat amt * unat (reserveBps (allocation s)) div 10000
               \<and> unat l = unat amt * unat (liquidityBps (allocation s)) div 10000
               \<and> unat e = unat amt * unat (enterpriseBps (allocation s)) div 10000
               \<and> unat k = unat amt - unat r - unat l - unat e
               \<and> unat r + unat l + unat e + unat k = unat amt"
    unfolding calculateAllocations_def by blast
next
  assume "\<not> (unat amt * unat (reserveBps (allocation s)) < 2 ^ 256 \<and>
             unat amt * unat (liquidityBps (allocation s)) < 2 ^ 256 \<and>
             unat amt * unat (enterpriseBps (allocation s)) < 2 ^ 256)"
  then show "calculateAllocations amt s = Inl Panic_Arithmetic"
    unfolding calculateAllocations_def by (rule calc_internal_overflow)
next
  assume "allocation s = \<lparr>reserveBps = 4000, liquidityBps = 3000,
                           enterpriseBps = 2000, stakingBps = 1000\<rparr>"
  then show "calculateAllocations 99 s = Inr (39, 29, 19, 12)"
    by (simp add: calculateAllocations_def calculateAllocations_internal_def checked_mul_def
        checked_sub_def BASIS_POINTS_def)
next
  show "calculateAllocations 0 s = Inr (0, 0, 0, 0)"
    by (simp add: calculateAllocations_def calculateAllocations_internal_def checked_mul_def
        checked_sub_def BASIS_POINTS_def)
qed

text \<open>The theorem at the default deployment, for the amounts 99, 0 and 1000001.\<close>

theorem calculateAllocations_no_dust_witness:
  "allocationSum deployed0 = 10000
   \<and> calculateAllocations 99 deployed0 = Inr (39, 29, 19, 12)
   \<and> calculateAllocations 0 deployed0 = Inr (0, 0, 0, 0)
   \<and> (\<exists>r l e k. calculateAllocations 1000001 deployed0 = Inr (r, l, e, k)
        \<and> unat r + unat l + unat e + unat k = 1000001)"
proof -
  have h: "allocationSum deployed0 = 10000"
    by (simp add: allocationSum_def deployed0_def)
  have a: "allocation deployed0 = \<lparr>reserveBps = 4000, liquidityBps = 3000,
                           enterpriseBps = 2000, stakingBps = 1000\<rparr>"
    by (simp add: deployed0_def)
  have f: "unat (1000001 :: uint256) * unat (reserveBps (allocation deployed0)) < 2 ^ 256 \<and>
          unat (1000001 :: uint256) * unat (liquidityBps (allocation deployed0)) < 2 ^ 256 \<and>
          unat (1000001 :: uint256) * unat (enterpriseBps (allocation deployed0)) < 2 ^ 256"
    by (simp add: deployed0_def)
  from calculateAllocations_no_dust [OF h, of 1000001] f
  have "\<exists>r l e k. calculateAllocations 1000001 deployed0 = Inr (r, l, e, k)
        \<and> unat r + unat l + unat e + unat k = 1000001"
    by auto
  with h a calculateAllocations_no_dust [OF h, of 0] show ?thesis by blast
qed

section \<open>What each operation does when it succeeds\<close>

lemma frame_refl: "frame s s"
  by (simp add: frame_def)

lemma frame_trans: "frame s s1 \<Longrightarrow> frame s1 s2 \<Longrightarrow> frame s s2"
  by (simp add: frame_def)

lemma issueOne_frame: "issueOne sid p a amt s = Inr s' \<Longrightarrow> frame s s'"
  by (auto simp: issueOne_def issueToPartition_def frame_def Let_def split: if_splits sum.splits)

lemma issueToPartitions_frame:
  assumes "issueToPartitions E sid a r l e k s = Inr s'"
  shows "frame s s'"
proof -
  from assms obtain s1 s2 s3 where
    "issueOne sid (PARTITION_RESERVE E) a r s = Inr s1"
    "issueOne sid (PARTITION_LIQUIDITY E) a l s1 = Inr s2"
    "issueOne sid (PARTITION_ENTERPRISE E) a e s2 = Inr s3"
    "issueOne sid (PARTITION_STAKING E) a k s3 = Inr s'"
    by (auto simp: issueToPartitions_def Let_def split: sum.splits)
  from this [THEN issueOne_frame] show ?thesis
    by (blast intro: frame_trans)
qed

lemma burnOne_frame: "burnOne p a amt s = Inr s' \<Longrightarrow> frame s s'"
  by (auto simp: burnOne_def burnFromPartition_def frame_def Let_def split: if_splits sum.splits)

lemma burnFromPartitions_frame:
  assumes "burnFromPartitions E a r l e k s = Inr s'"
  shows "frame s s'"
proof -
  from assms obtain s1 s2 s3 where
    "burnOne (PARTITION_RESERVE E) a r s = Inr s1"
    "burnOne (PARTITION_LIQUIDITY E) a l s1 = Inr s2"
    "burnOne (PARTITION_ENTERPRISE E) a e s2 = Inr s3"
    "burnOne (PARTITION_STAKING E) a k s3 = Inr s'"
    by (auto simp: burnFromPartitions_def split: sum.splits)
  from this [THEN burnOne_frame] show ?thesis
    by (blast intro: frame_trans)
qed

lemma bridgeRevenue_body_Inr:
  assumes "bridgeRevenue_body E c i a p b cur src dst s = Inr (sid, s')"
  shows "sid = hashSettlement E i (block_timestamp c) (chainid E) (settlementNonce s + 1)"
    and "unat (settlementNonce s) + 1 < 2 ^ 256"
    and "unat (totalRevenueBridged s) + unat a < 2 ^ 256"
    and "invoiceToSettlement s (hashInvoice E i) = 0"
    and "a \<noteq> 0" and "b \<noteq> 0"
    and "settlements s' = (settlements s)(sid :=
                  \<lparr>invoiceId = i, payer = p, beneficiary = b, amount = a,
                   currency = cur, sourceSystem = src, destinationSystem = dst,
                   settlementId = sid, status = SETTLED,
                   bridgedAt = block_timestamp c, settledAt = block_timestamp c\<rparr>)"
    and "invoiceToSettlement s' = (invoiceToSettlement s)(hashInvoice E i := sid)"
    and "totalRevenueBridged s' = totalRevenueBridged s + a"
    and "settlementNonce s' = settlementNonce s + 1"
    and "totalRevenueReversed s' = totalRevenueReversed s"
    and "allocation s' = allocation s" and "owner s' = owner s" and "paused s' = paused s"
    and "entered s' = entered s" and "bridgeOperator s' = bridgeOperator s"
  using assms
  by (auto simp: bridgeRevenue_body_def generateSettlementId_def checked_add_def Let_def frame_def
      split: if_splits sum.splits prod.splits dest!: issueToPartitions_frame)

lemma bridgeRevenue_Inr:
  assumes "bridgeRevenue E c i a p b cur src dst s = Inr (sid, s')"
  shows "authorized c s" and "\<not> entered s" and "\<not> paused s"
    and "\<exists>s''. bridgeRevenue_body E c i a p b cur src dst (s\<lparr>entered := True\<rparr>) = Inr (sid, s'')
           \<and> s' = s''\<lparr>entered := False\<rparr>"
  using assms
  by (auto simp: bridgeRevenue_def onlyOperator_def nonReentrant_def whenNotPaused_def
      authorized_def split: if_splits sum.splits prod.splits)

lemma bridgeRevenue_ledger:
  assumes "bridgeRevenue E c i a p b cur src dst s = Inr (sid, s')"
  shows "ledgerStep E s s'"
proof -
  from bridgeRevenue_Inr [OF assms] obtain s'' where
    ne: "\<not> entered s"
    and body: "bridgeRevenue_body E c i a p b cur src dst (s\<lparr>entered := True\<rparr>) = Inr (sid, s'')"
    and s': "s' = s''\<lparr>entered := False\<rparr>" by blast
  note f = bridgeRevenue_body_Inr [OF body]
  show ?thesis
    by (rule ledgerStep.ledger_created [where sid = sid and i = i and t = "block_timestamp c"
          and h = "hashInvoice E i"
          and entry = "\<lparr>invoiceId = i, payer = p, beneficiary = b, amount = a,
                   currency = cur, sourceSystem = src, destinationSystem = dst,
                   settlementId = sid, status = SETTLED,
                   bridgedAt = block_timestamp c, settledAt = block_timestamp c\<rparr>"])
       (use f ne in \<open>simp_all add: s'\<close>)
qed

lemma bridgeStripeRevenue_reverts:
  "\<exists>err. bridgeStripeRevenue E c i a b s = Inl err"
  by (simp add: bridgeStripeRevenue_def bridgeRevenue_def onlyOperator_def nonReentrant_def
      whenNotPaused_def)

lemma reverseSettlement_Inr:
  assumes "reverseSettlement E c sid reason s = Inr (u, s')"
  shows "authorized c s" and "\<not> entered s" and "\<not> paused s"
    and "bridgedAt (settlements s sid) \<noteq> 0" and "status (settlements s sid) = SETTLED"
    and "unat (totalRevenueReversed s) + unat (amount (settlements s sid)) < 2 ^ 256"
    and "settlements s' = (settlements s)(sid := (settlements s sid)\<lparr>status := REVERSED\<rparr>)"
    and "totalRevenueReversed s' = totalRevenueReversed s + amount (settlements s sid)"
    and "invoiceToSettlement s' = invoiceToSettlement s"
    and "totalRevenueBridged s' = totalRevenueBridged s"
    and "settlementNonce s' = settlementNonce s"
    and "allocation s' = allocation s" and "owner s' = owner s" and "paused s' = paused s"
    and "entered s' = entered s" and "bridgeOperator s' = bridgeOperator s"
  using assms
  by (auto simp: reverseSettlement_def reverseSettlement_body_def onlyOperator_def
      nonReentrant_def whenNotPaused_def authorized_def checked_add_def Let_def frame_def
      split: if_splits sum.splits prod.splits dest!: burnFromPartitions_frame)

lemma disputeSettlement_Inr:
  assumes "disputeSettlement c sid s = Inr (u, s')"
  shows "authorized c s"
    and "bridgedAt (settlements s sid) \<noteq> 0"
    and "s' = s\<lparr>settlements := (settlements s)(sid := (settlements s sid)\<lparr>status := DISPUTED\<rparr>),
               events := events s @
                 [SettlementStatusChanged sid (status (settlements s sid)) DISPUTED]\<rparr>"
  using assms
  by (auto simp: disputeSettlement_def onlyOperator_def authorized_def Let_def
      split: if_splits)

lemma setAllocation_Inr:
  assumes "setAllocation c r l e k s = Inr (u, s')"
  shows "msg_sender c = owner s" and "unat r + unat l + unat e + unat k = 10000"
    and "s' = s\<lparr>allocation := \<lparr>reserveBps = r, liquidityBps = l,
                                 enterpriseBps = e, stakingBps = k\<rparr>,
               events := events s @ [AllocationUpdated r l e k]\<rparr>"
proof -
  from assms have own: "msg_sender c = owner s"
    and f1: "unat r + unat l < 2 ^ 256" and f2: "unat (r + l) + unat e < 2 ^ 256"
    and f3: "unat (r + l + e) + unat k < 2 ^ 256" and eq: "r + l + e + k = 10000"
    and s': "s' = s\<lparr>allocation := \<lparr>reserveBps = r, liquidityBps = l,
                                 enterpriseBps = e, stakingBps = k\<rparr>,
               events := events s @ [AllocationUpdated r l e k]\<rparr>"
    by (auto simp: setAllocation_def onlyOwner_def checked_add_def BASIS_POINTS_def Let_def
        split: if_splits sum.splits)
  have "unat (r + l + e + k) = unat r + unat l + unat e + unat k"
    using f1 f2 f3 by (simp add: unat_add_fits)
  with eq show "unat r + unat l + unat e + unat k = 10000" by simp
  show "msg_sender c = owner s" by fact
  show "s' = s\<lparr>allocation := \<lparr>reserveBps = r, liquidityBps = l,
                                 enterpriseBps = e, stakingBps = k\<rparr>,
               events := events s @ [AllocationUpdated r l e k]\<rparr>" by fact
qed

lemma exec_ledger: "exec E c cl s = Inr s' \<Longrightarrow> ledgerStep E s s'"
proof (cases cl)
  case (BridgeRevenue i a p b cur src dst)
  assume "exec E c cl s = Inr s'"
  with BridgeRevenue obtain sid where "bridgeRevenue E c i a p b cur src dst s = Inr (sid, s')"
    by (auto simp: dropResult_def split: sum.splits)
  then show ?thesis by (rule bridgeRevenue_ledger)
next
  case (BridgeStripeRevenue i a b)
  assume "exec E c cl s = Inr s'"
  with BridgeStripeRevenue bridgeStripeRevenue_reverts [of E c i a b s] show ?thesis
    by (auto simp: dropResult_def)
next
  case (ReverseSettlement sid reason)
  assume "exec E c cl s = Inr s'"
  with ReverseSettlement obtain u where "reverseSettlement E c sid reason s = Inr (u, s')"
    by (auto simp: dropResult_def split: sum.splits)
  from reverseSettlement_Inr [OF this] show ?thesis
    by (intro ledgerStep.ledger_reversed [where sid = sid]) simp_all
next
  case (DisputeSettlement sid)
  assume "exec E c cl s = Inr s'"
  with DisputeSettlement obtain u where "disputeSettlement c sid s = Inr (u, s')"
    by (auto simp: dropResult_def split: sum.splits)
  from disputeSettlement_Inr [OF this] show ?thesis
    by (intro ledgerStep.ledger_disputed [where sid = sid]) simp_all
next
  case (SetOperator a)
  assume "exec E c cl s = Inr s'"
  with SetOperator show ?thesis
    by (intro ledgerStep.ledger_kept)
       (auto simp: dropResult_def setOperator_def onlyOwner_def Let_def split: if_splits)
next
  case (SetAllocation r l e k)
  assume "exec E c cl s = Inr s'"
  with SetAllocation obtain u where "setAllocation c r l e k s = Inr (u, s')"
    by (auto simp: dropResult_def split: sum.splits)
  from setAllocation_Inr [OF this] show ?thesis
    by (intro ledgerStep.ledger_kept) (simp_all add: allocationSum_def)
next
  case Pause
  assume "exec E c cl s = Inr s'"
  with Pause show ?thesis
    by (intro ledgerStep.ledger_kept)
       (auto simp: dropResult_def pause_def onlyOwner_def whenNotPaused_def split: if_splits)
next
  case Unpause
  assume "exec E c cl s = Inr s'"
  with Unpause show ?thesis
    by (intro ledgerStep.ledger_kept)
       (auto simp: dropResult_def unpause_def onlyOwner_def whenPaused_def split: if_splits)
next
  case (TransferOwnership a)
  assume "exec E c cl s = Inr s'"
  with TransferOwnership show ?thesis
    by (intro ledgerStep.ledger_kept)
       (auto simp: dropResult_def transferOwnership_def onlyOwner_def split: if_splits)
next
  case RenounceOwnership
  assume "exec E c cl s = Inr s'"
  with RenounceOwnership show ?thesis
    by (intro ledgerStep.ledger_kept)
       (auto simp: dropResult_def renounceOwnership_def onlyOwner_def split: if_splits)
next
  case (TokenActivity bal tot)
  assume "exec E c cl s = Inr s'"
  with TokenActivity show ?thesis
    by (intro ledgerStep.ledger_kept) auto
qed

lemma step_ledger: "ledgerStep E s (step E tx s)"
proof (cases "exec E (fst tx) (snd tx) s")
  case (Inl e)
  then show ?thesis by (simp add: step_def ledgerStep.ledger_kept)
next
  case (Inr s')
  then show ?thesis by (simp add: step_def exec_ledger)
qed

section \<open>Invariants of the reachable states\<close>

lemma constructor_Inr:
  assumes "constructor token operator owner0 bal tot = Inr s"
  shows "allocationSum s = 10000" and "\<not> entered s"
    and "settlements s = (\<lambda>_. zeroEntry)" and "invoiceToSettlement s = (\<lambda>_. 0)"
    and "totalRevenueBridged s = 0" and "totalRevenueReversed s = 0"
    and "settlementNonce s = 0"
  using assms by (auto simp: constructor_def allocationSum_def split: if_splits)

lemma ledgerStep_allocationSum:
  "ledgerStep E s s' \<Longrightarrow> allocationSum s = 10000 \<Longrightarrow> allocationSum s' = 10000"
  by (induction rule: ledgerStep.induct) (auto simp: allocationSum_def)

lemma ledgerStep_entered: "ledgerStep E s s' \<Longrightarrow> entered s' = entered s"
  by (induction rule: ledgerStep.induct) auto

lemma reachable_allocationSum: "reachable E s \<Longrightarrow> allocationSum s = 10000"
proof (induction rule: reachable.induct)
  case (deployed token operator owner0 bal tot s)
  then show ?case by (rule constructor_Inr)
next
  case (transact s tx)
  then show ?case using ledgerStep_allocationSum [OF step_ledger] by blast
qed

lemma reachable_not_entered: "reachable E s \<Longrightarrow> \<not> entered s"
proof (induction rule: reachable.induct)
  case (deployed token operator owner0 bal tot s)
  then show ?case by (rule constructor_Inr)
next
  case (transact s tx)
  then show ?case using ledgerStep_entered [OF step_ledger, of E tx s] by simp
qed

lemma reachable_run: "reachable E s \<Longrightarrow> reachable E (run E txs s)"
  by (induction txs arbitrary: s) (auto intro: reachable.transact)

text \<open>The sum over all identifiers when one record is replaced.\<close>

lemma sum_point_update:
  fixes g :: "RevenueEntry \<Rightarrow> nat" and f :: "bytes32 \<Rightarrow> RevenueEntry"
  shows "(\<Sum>x\<in>UNIV. g ((f(k := v)) x)) + g (f k) = (\<Sum>x\<in>UNIV. g (f x)) + g v"
proof -
  have fin: "finite (UNIV :: bytes32 set)" by simp
  have a: "(\<Sum>x\<in>UNIV. g ((f(k := v)) x)) = g v + (\<Sum>x\<in>UNIV - {k}. g ((f(k := v)) x))"
    using sum.remove [OF fin, of k "\<lambda>x. g ((f(k := v)) x)"] by simp
  have b: "(\<Sum>x\<in>UNIV. g (f x)) = g (f k) + (\<Sum>x\<in>UNIV - {k}. g (f x))"
    using sum.remove [OF fin, of k "\<lambda>x. g (f x)"] by simp
  have c: "(\<Sum>x\<in>UNIV - {k}. g ((f(k := v)) x)) = (\<Sum>x\<in>UNIV - {k}. g (f x))"
    by (rule sum.cong) auto
  show ?thesis unfolding a b c by simp
qed

lemma settledTotal_update:
  assumes "settlements s' = (settlements s)(sid := en)"
  shows "settledTotal s' + settledAmount (settlements s sid) = settledTotal s + settledAmount en"
  using sum_point_update [of settledAmount "settlements s" sid en] assms
  by (simp add: settledTotal_def)

lemma ledgerStep_totals:
  assumes "ledgerStep E s s'"
    and "unat (totalRevenueReversed s) + settledTotal s \<le> unat (totalRevenueBridged s)"
  shows "unat (totalRevenueReversed s') + settledTotal s' \<le> unat (totalRevenueBridged s')"
  using assms
proof (induction rule: ledgerStep.induct)
  case (ledger_kept s' s)
  then show ?case by (simp add: settledTotal_def)
next
  case (ledger_created s sid i t h entry s')
  from settledTotal_update [OF ledger_created(6)]
  have "settledTotal s' \<le> settledTotal s + unat (amount entry)"
    using ledger_created(5) by (simp add: settledAmount_def)
  moreover have "unat (totalRevenueBridged s') = unat (totalRevenueBridged s) + unat (amount entry)"
    using ledger_created(4,8) by (simp add: unat_add_fits)
  ultimately show ?case using ledger_created by simp
next
  case (ledger_reversed s sid s')
  from settledTotal_update [OF ledger_reversed(4)]
  have "settledTotal s' + unat (amount (settlements s sid)) = settledTotal s"
    using ledger_reversed(2) by (simp add: settledAmount_def)
  moreover have "unat (totalRevenueReversed s')
                 = unat (totalRevenueReversed s) + unat (amount (settlements s sid))"
    using ledger_reversed(3,7) by (simp add: unat_add_fits)
  ultimately show ?case using ledger_reversed by simp
next
  case (ledger_disputed s sid s')
  from settledTotal_update [OF ledger_disputed(2)]
  have "settledTotal s' \<le> settledTotal s"
    by (simp add: settledAmount_def)
  then show ?case using ledger_disputed by simp
qed

lemma reachable_totals:
  "reachable E s \<Longrightarrow> unat (totalRevenueReversed s) + settledTotal s \<le> unat (totalRevenueBridged s)"
proof (induction rule: reachable.induct)
  case (deployed token operator owner0 bal tot s)
  from constructor_Inr [OF this] show ?case
    by (simp add: settledTotal_def settledAmount_def zeroEntry_def)
next
  case (transact s tx)
  then show ?case using ledgerStep_totals [OF step_ledger] by blast
qed

lemma transitionAllowed_refl: "transitionAllowed a a"
  by (cases a) simp_all

lemma transitionAllowed_dispute: "a \<noteq> PENDING \<Longrightarrow> transitionAllowed a DISPUTED"
  by (cases a) simp_all

lemma ledgerStep_existing:
  "ledgerStep E s s' \<Longrightarrow> existingNotPending s \<Longrightarrow> existingNotPending s'"
  by (induction rule: ledgerStep.induct) (auto simp: existingNotPending_def)

lemma reachable_existing: "reachable E s \<Longrightarrow> existingNotPending s"
proof (induction rule: reachable.induct)
  case (deployed token operator owner0 bal tot s)
  from constructor_Inr [OF this] show ?case
    by (simp add: existingNotPending_def zeroEntry_def)
next
  case (transact s tx)
  then show ?case using ledgerStep_existing [OF step_ledger] by blast
qed

text \<open>Only \<^verbatim>\<open>bridgeRevenue\<close> moves the nonce.\<close>

lemma exec_nonce:
  assumes "exec E c cl s = Inr s'"
    and "\<forall>i a p b cur src dst. cl \<noteq> BridgeRevenue i a p b cur src dst"
  shows "settlementNonce s' = settlementNonce s"
proof (cases cl)
  case (BridgeRevenue i a p b cur src dst)
  with assms(2) show ?thesis by blast
next
  case (BridgeStripeRevenue i a b)
  with assms(1) bridgeStripeRevenue_reverts [of E c i a b s] show ?thesis
    by (auto simp: dropResult_def)
next
  case (ReverseSettlement sid reason)
  with assms(1) obtain u where "reverseSettlement E c sid reason s = Inr (u, s')"
    by (auto simp: dropResult_def split: sum.splits)
  from reverseSettlement_Inr(11) [OF this] show ?thesis .
next
  case (DisputeSettlement sid)
  with assms(1) obtain u where "disputeSettlement c sid s = Inr (u, s')"
    by (auto simp: dropResult_def split: sum.splits)
  from disputeSettlement_Inr(3) [OF this] show ?thesis by simp
next
  case (SetOperator a)
  with assms(1) show ?thesis
    by (auto simp: dropResult_def setOperator_def onlyOwner_def Let_def split: if_splits)
next
  case (SetAllocation r l e k)
  with assms(1) obtain u where "setAllocation c r l e k s = Inr (u, s')"
    by (auto simp: dropResult_def split: sum.splits)
  from setAllocation_Inr(3) [OF this] show ?thesis by simp
next
  case Pause
  with assms(1) show ?thesis
    by (auto simp: dropResult_def pause_def onlyOwner_def whenNotPaused_def split: if_splits)
next
  case Unpause
  with assms(1) show ?thesis
    by (auto simp: dropResult_def unpause_def onlyOwner_def whenPaused_def split: if_splits)
next
  case (TransferOwnership a)
  with assms(1) show ?thesis
    by (auto simp: dropResult_def transferOwnership_def onlyOwner_def split: if_splits)
next
  case RenounceOwnership
  with assms(1) show ?thesis
    by (auto simp: dropResult_def renounceOwnership_def onlyOwner_def split: if_splits)
next
  case (TokenActivity bal tot)
  with assms(1) show ?thesis by auto
qed

lemma ledgerStep_transition:
  assumes "ledgerStep E s s'" and "settlementNonce s' = settlementNonce s"
    and "existingNotPending s"
  shows "transitionAllowed (status (settlements s x)) (status (settlements s' x))"
  using assms
proof (induction rule: ledgerStep.induct)
  case (ledger_kept s' s)
  then show ?case by (simp add: transitionAllowed_refl)
next
  case (ledger_created s sid i t h entry s')
  from ledger_created(10,13) have False by simp
  then show ?case ..
next
  case (ledger_reversed s sid s')
  then show ?case by (cases "x = sid") (simp_all add: transitionAllowed_refl)
next
  case (ledger_disputed s sid s')
  then show ?case
    by (cases "x = sid")
       (simp_all add: transitionAllowed_refl transitionAllowed_dispute existingNotPending_def)
qed

lemma step_transition:
  assumes ex: "existingNotPending s" and fr: "idFresh E tx s"
  shows "transitionAllowed (status (settlements s x)) (status (settlements (step E tx s) x))"
proof (cases "exec E (fst tx) (snd tx) s")
  case (Inl e)
  then show ?thesis by (simp add: step_def transitionAllowed_refl)
next
  case (Inr s')
  then have st: "step E tx s = s'" by (simp add: step_def)
  show ?thesis
  proof (cases "\<exists>i a p b cur src dst. snd tx = BridgeRevenue i a p b cur src dst")
    case True
    then obtain i a p b cur src dst where cl: "snd tx = BridgeRevenue i a p b cur src dst"
      by blast
    with Inr obtain sid where
      br: "bridgeRevenue E (fst tx) i a p b cur src dst s = Inr (sid, s')"
      by (auto simp: dropResult_def split: sum.splits)
    from bridgeRevenue_Inr [OF br] obtain s'' where
      body: "bridgeRevenue_body E (fst tx) i a p b cur src dst (s\<lparr>entered := True\<rparr>)
               = Inr (sid, s'')"
      and s': "s' = s''\<lparr>entered := False\<rparr>" by blast
    note f = bridgeRevenue_body_Inr [OF body]
    have sid: "sid = hashSettlement E i (block_timestamp (fst tx)) (chainid E)
                       (settlementNonce s + 1)"
      using f(1) by simp
    have old: "status (settlements s sid) = PENDING"
      using fr cl sid by (simp add: idFresh_def)
    have new: "settlements s' = (settlements s)(sid :=
                  \<lparr>invoiceId = i, payer = p, beneficiary = b, amount = a,
                   currency = cur, sourceSystem = src, destinationSystem = dst,
                   settlementId = sid, status = SETTLED,
                   bridgedAt = block_timestamp (fst tx), settledAt = block_timestamp (fst tx)\<rparr>)"
      using f(7) by (simp add: s')
    show ?thesis unfolding st
      by (cases "x = sid") (simp_all add: old new transitionAllowed_refl)
  next
    case False
    with exec_nonce [OF Inr] have "settlementNonce s' = settlementNonce s" by blast
    from ledgerStep_transition [OF exec_ledger [OF Inr] this ex] show ?thesis
      unfolding st .
  qed
qed

lemma reversed_stays:
  "reachable E s \<Longrightarrow> idsFresh E txs s \<Longrightarrow>
   status (settlements s x) = REVERSED \<or> status (settlements s x) = DISPUTED \<Longrightarrow>
   status (settlements (run E txs s) x) = REVERSED
   \<or> status (settlements (run E txs s) x) = DISPUTED"
proof (induction txs arbitrary: s)
  case Nil
  then show ?case by simp
next
  case (Cons tx txs)
  from Cons.prems(2) have fr: "idFresh E tx s" and rest: "idsFresh E txs (step E tx s)"
    by simp_all
  have "transitionAllowed (status (settlements s x)) (status (settlements (step E tx s) x))"
    by (rule step_transition [OF reachable_existing [OF Cons.prems(1)] fr])
  with Cons.prems(3) have "status (settlements (step E tx s) x) = REVERSED
      \<or> status (settlements (step E tx s) x) = DISPUTED"
    by auto
  with Cons.IH [OF reachable.transact [OF Cons.prems(1)] rest] show ?case by simp
qed

section \<open>Duplicate invoices\<close>

text \<open>
  Claim C2. In every state in which the invoice is already mapped to a settlement, a call of
  \<^verbatim>\<open>bridgeRevenue\<close> with that invoice by the operator or the owner, while the contract is
  not paused (and no call is in progress), with a non-zero amount and a non-zero
  beneficiary, fails with \<^verbatim>\<open>InvoiceAlreadyProcessed\<close> carrying the invoice, and the
  transaction leaves the whole state as it was: totals, settlements, invoice index and
  partition balances.
\<close>

theorem bridgeRevenue_duplicate_rejected:
  assumes "isInvoiceProcessed E invId s" and "authorized c s" and "\<not> paused s"
    and "\<not> entered s" and "amt \<noteq> 0" and "benef \<noteq> 0"
  shows "bridgeRevenue E c invId amt p benef cur src dst s = Inl (InvoiceAlreadyProcessed invId)
       \<and> step E (c, BridgeRevenue invId amt p benef cur src dst) s = s"
proof -
  have "bridgeRevenue E c invId amt p benef cur src dst s = Inl (InvoiceAlreadyProcessed invId)"
    using assms
    by (simp add: bridgeRevenue_def bridgeRevenue_body_def onlyOperator_def nonReentrant_def
        whenNotPaused_def authorized_def isInvoiceProcessed_def)
  then show ?thesis by (simp add: step_def dropResult_def)
qed

text \<open>The theorem at the state after \<open>inv_1\<close> was bridged, for a second call like the first.\<close>

theorem bridgeRevenue_duplicate_rejected_witness:
  "isInvoiceProcessed E0 ''inv_1'' (run E0 [bridge1] deployed0)
   \<and> bridgeRevenue E0 asOperator ''inv_1'' 10000 4 3 0 81 82 (run E0 [bridge1] deployed0)
       = Inl (InvoiceAlreadyProcessed ''inv_1'')
   \<and> step E0 (asOperator, BridgeRevenue ''inv_1'' 10000 4 3 0 81 82) (run E0 [bridge1] deployed0)
       = run E0 [bridge1] deployed0"
proof -
  have h1: "isInvoiceProcessed E0 ''inv_1'' (run E0 [bridge1] deployed0)"
    by (simp add: isInvoiceProcessed_def model_defs scenario_defs)
  have h2: "authorized asOperator (run E0 [bridge1] deployed0)"
    by (simp add: authorized_def model_defs scenario_defs)
  have h3: "\<not> paused (run E0 [bridge1] deployed0)"
    by (simp add: model_defs scenario_defs)
  have h4: "\<not> entered (run E0 [bridge1] deployed0)"
    by (simp add: model_defs scenario_defs)
  have h5: "(10000 :: uint256) \<noteq> 0" and h6: "(3 :: address) \<noteq> 0" by simp_all
  from bridgeRevenue_duplicate_rejected [OF h1 h2 h3 h4 h5 h6, of 4 0 81 82] h1
  show ?thesis by simp
qed

section \<open>Rejected reversals\<close>

text \<open>
  Claim C7. For every existing settlement whose status is not SETTLED (an already REVERSED
  one in particular), \<^verbatim>\<open>reverseSettlement\<close>, called by the operator or the owner while the
  contract is not paused, fails with \<^verbatim>\<open>InvalidSettlementStatus\<close> reporting the current
  status and the required status SETTLED; for an unknown settlement identifier it fails
  with \<^verbatim>\<open>SettlementNotFound\<close>; in both cases the transaction changes no partition
  balance, no total and no settlement record.
\<close>

theorem reverseSettlement_rejected:
  assumes "authorized c s" and "\<not> paused s" and "\<not> entered s"
  shows "(bridgedAt (settlements s sid) \<noteq> 0 \<and> status (settlements s sid) \<noteq> SETTLED \<longrightarrow>
            reverseSettlement E c sid reason s
              = Inl (InvalidSettlementStatus sid (status (settlements s sid)) SETTLED)
            \<and> step E (c, ReverseSettlement sid reason) s = s)
       \<and> (bridgedAt (settlements s sid) = 0 \<longrightarrow>
            reverseSettlement E c sid reason s = Inl (SettlementNotFound sid)
            \<and> step E (c, ReverseSettlement sid reason) s = s)"
  using assms
  by (auto simp: reverseSettlement_def reverseSettlement_body_def onlyOperator_def
      nonReentrant_def whenNotPaused_def authorized_def step_def dropResult_def Let_def)

text \<open>
  The theorem at the state after \<open>inv_1\<close> was bridged and its settlement (identifier 1)
  reversed: a second reversal, and the reversal of the unknown identifier 99.
\<close>

theorem reverseSettlement_rejected_witness:
  "status (settlements (run E0 [bridge1, reverse1] deployed0) 1) = REVERSED
   \<and> reverseSettlement E0 asOperator 1 8 (run E0 [bridge1, reverse1] deployed0)
       = Inl (InvalidSettlementStatus 1 REVERSED SETTLED)
   \<and> step E0 (asOperator, ReverseSettlement 1 8) (run E0 [bridge1, reverse1] deployed0)
       = run E0 [bridge1, reverse1] deployed0
   \<and> reverseSettlement E0 asOperator 99 8 (run E0 [bridge1, reverse1] deployed0)
       = Inl (SettlementNotFound 99)"
proof -
  let ?s = "run E0 [bridge1, reverse1] deployed0"
  have h1: "authorized asOperator ?s" by (simp add: authorized_def model_defs scenario_defs)
  have h2: "\<not> paused ?s" by (simp add: model_defs scenario_defs)
  have h3: "\<not> entered ?s" by (simp add: model_defs scenario_defs)
  have st: "status (settlements ?s 1) = REVERSED" "bridgedAt (settlements ?s 1) \<noteq> 0"
    "bridgedAt (settlements ?s 99) = 0"
    by (simp_all add: model_defs scenario_defs zeroEntry_def)
  from reverseSettlement_rejected [OF h1 h2 h3, where sid = 1 and reason = 8 and E = E0]
       reverseSettlement_rejected [OF h1 h2 h3, where sid = 99 and reason = 8 and E = E0] st
  show ?thesis by simp
qed


section \<open>The convenience variant\<close>

text \<open>
  Claim C6 fails on the code. \<^verbatim>\<open>bridgeStripeRevenue\<close> never returns a settlement: its
  call \<^verbatim>\<open>this.bridgeRevenue(...)\<close> arrives with the contract as the sender and with the
  reentrancy guard entered, so the callee reverts and the revert propagates. At the fresh
  deployment the operator's call for \<open>inv_stripe\<close>, 1000000, treasury 3 reverts with
  \<^verbatim>\<open>Unauthorized\<close>, where \<^verbatim>\<open>bridgeRevenue\<close> with the same invoice, amount and beneficiary
  and the four defaults returns the settlement identifier 1.
\<close>

theorem bridgeStripeRevenue_always_reverts:
  "bridgeStripeRevenue E c invId amt benef s \<noteq> Inr r
   \<and> bridgeStripeRevenue E0 asOperator ''inv_stripe'' 1000000 3 deployed0 = Inl Unauthorized
   \<and> map_sum id fst (bridgeRevenue E0 asOperator ''inv_stripe'' 1000000 0 3 0
        (SOURCE_STRIPE E0) (DEST_DAO_TREASURY E0) deployed0) = Inr 1"
proof (intro conjI)
  show "bridgeStripeRevenue E c invId amt benef s \<noteq> Inr r"
    by (simp add: bridgeStripeRevenue_def bridgeRevenue_def onlyOperator_def nonReentrant_def
        whenNotPaused_def)
  show "bridgeStripeRevenue E0 asOperator ''inv_stripe'' 1000000 3 deployed0 = Inl Unauthorized"
    by (simp add: model_defs scenario_defs)
  show "map_sum id fst (bridgeRevenue E0 asOperator ''inv_stripe'' 1000000 0 3 0
        (SOURCE_STRIPE E0) (DEST_DAO_TREASURY E0) deployed0) = Inr 1"
    by (simp add: model_defs scenario_defs)
qed

section \<open>The pause\<close>

text \<open>
  Claim C5, as stated, at the state after \<open>inv_1\<close> was bridged and the owner paused the
  contract: the contract is paused, and the operator's \<^verbatim>\<open>disputeSettlement\<close> of
  settlement 1 does not fail; it changes the status of the settlement from SETTLED to
  DISPUTED.
\<close>

theorem disputeSettlement_while_paused_counterexample:
  "paused (run E0 [bridge1, pauseByOwner] deployed0)
   \<and> status (settlements (run E0 [bridge1, pauseByOwner] deployed0) 1) = SETTLED
   \<and> map_sum id (\<lambda>r. status (settlements (snd r) 1))
        (disputeSettlement asOperator 1 (run E0 [bridge1, pauseByOwner] deployed0))
       = Inr DISPUTED
   \<and> status (settlements (step E0 dispute1 (run E0 [bridge1, pauseByOwner] deployed0)) 1)
       = DISPUTED"
  by (simp add: model_defs scenario_defs)

text \<open>
  Claim C5, amended. While the contract is paused, \<^verbatim>\<open>bridgeRevenue\<close>,
  \<^verbatim>\<open>bridgeStripeRevenue\<close> and \<^verbatim>\<open>reverseSettlement\<close>, called by the operator or the owner,
  fail with the pause error (\<^verbatim>\<open>EnforcedPause\<close> of \<^verbatim>\<open>Pausable\<close>) and the transaction
  changes no state. \<^verbatim>\<open>disputeSettlement\<close> is not gated by the pause: on an existing
  settlement it succeeds and sets the status DISPUTED, changing nothing but that record and
  the log. The read-only queries (\<^verbatim>\<open>getSettlement\<close>, \<^verbatim>\<open>getSettlementByInvoice\<close>,
  \<^verbatim>\<open>isInvoiceProcessed\<close>, \<^verbatim>\<open>netRevenue\<close>, \<^verbatim>\<open>calculateAllocations\<close>, the totals) answer as
  they would if the contract were not paused.
\<close>

theorem paused_gating:
  assumes "paused s" and "authorized c s" and "\<not> entered s"
  shows "bridgeRevenue E c invId amt p benef cur src dst s = Inl EnforcedPause
       \<and> bridgeStripeRevenue E c invId amt benef s = Inl EnforcedPause
       \<and> reverseSettlement E c sid reason s = Inl EnforcedPause
       \<and> step E (c, BridgeRevenue invId amt p benef cur src dst) s = s
       \<and> step E (c, BridgeStripeRevenue invId amt benef) s = s
       \<and> step E (c, ReverseSettlement sid reason) s = s
       \<and> (bridgedAt (settlements s sid) \<noteq> 0 \<longrightarrow>
            disputeSettlement c sid s
              = Inr ((), s\<lparr>settlements :=
                             (settlements s)(sid := (settlements s sid)\<lparr>status := DISPUTED\<rparr>),
                           events := events s @
                             [SettlementStatusChanged sid (status (settlements s sid)) DISPUTED]\<rparr>))
       \<and> getSettlement sid s = getSettlement sid (s\<lparr>paused := False\<rparr>)
       \<and> getSettlementByInvoice E invId s = getSettlementByInvoice E invId (s\<lparr>paused := False\<rparr>)
       \<and> isInvoiceProcessed E invId s = isInvoiceProcessed E invId (s\<lparr>paused := False\<rparr>)
       \<and> netRevenue s = netRevenue (s\<lparr>paused := False\<rparr>)
       \<and> calculateAllocations amt s = calculateAllocations amt (s\<lparr>paused := False\<rparr>)
       \<and> totalRevenueBridged s = totalRevenueBridged (s\<lparr>paused := False\<rparr>)
       \<and> totalRevenueReversed s = totalRevenueReversed (s\<lparr>paused := False\<rparr>)"
proof -
  have b: "bridgeRevenue E c invId amt p benef cur src dst s = Inl EnforcedPause"
    using assms
    by (simp add: bridgeRevenue_def onlyOperator_def nonReentrant_def whenNotPaused_def
        authorized_def)
  have bs: "bridgeStripeRevenue E c invId amt benef s = Inl EnforcedPause"
    using assms
    by (simp add: bridgeStripeRevenue_def onlyOperator_def nonReentrant_def whenNotPaused_def
        authorized_def)
  have r: "reverseSettlement E c sid reason s = Inl EnforcedPause"
    using assms
    by (simp add: reverseSettlement_def onlyOperator_def nonReentrant_def whenNotPaused_def
        authorized_def)
  have d: "bridgedAt (settlements s sid) \<noteq> 0 \<longrightarrow>
            disputeSettlement c sid s
              = Inr ((), s\<lparr>settlements :=
                             (settlements s)(sid := (settlements s sid)\<lparr>status := DISPUTED\<rparr>),
                           events := events s @
                             [SettlementStatusChanged sid (status (settlements s sid)) DISPUTED]\<rparr>)"
    using assms by (auto simp: disputeSettlement_def onlyOperator_def authorized_def Let_def)
  have v: "getSettlement sid s = getSettlement sid (s\<lparr>paused := False\<rparr>)"
    "getSettlementByInvoice E invId s = getSettlementByInvoice E invId (s\<lparr>paused := False\<rparr>)"
    "isInvoiceProcessed E invId s = isInvoiceProcessed E invId (s\<lparr>paused := False\<rparr>)"
    "netRevenue s = netRevenue (s\<lparr>paused := False\<rparr>)"
    by (simp_all add: getSettlement_def getSettlementByInvoice_def isInvoiceProcessed_def
        netRevenue_def)
  have va: "calculateAllocations amt s = calculateAllocations amt (s\<lparr>paused := False\<rparr>)"
    by (simp add: calculateAllocations_def calculateAllocations_internal_def Let_def
        split: sum.splits)
  from b bs r d v va show ?thesis by (simp add: step_def dropResult_def)
qed

text \<open>The theorem at the state after \<open>inv_1\<close> was bridged and the owner paused the contract.\<close>

theorem paused_gating_witness:
  "paused (run E0 [bridge1, pauseByOwner] deployed0)
   \<and> bridgeRevenue E0 asOperator ''inv_2'' 10000 4 3 0 81 82
        (run E0 [bridge1, pauseByOwner] deployed0) = Inl EnforcedPause
   \<and> reverseSettlement E0 asOperator 1 7 (run E0 [bridge1, pauseByOwner] deployed0)
        = Inl EnforcedPause
   \<and> step E0 reverse1 (run E0 [bridge1, pauseByOwner] deployed0)
        = run E0 [bridge1, pauseByOwner] deployed0"
proof -
  let ?s = "run E0 [bridge1, pauseByOwner] deployed0"
  have h1: "paused ?s" by (simp add: model_defs scenario_defs)
  have h2: "authorized asOperator ?s" by (simp add: authorized_def model_defs scenario_defs)
  have h3: "\<not> entered ?s" by (simp add: model_defs scenario_defs)
  from paused_gating [OF h1 h2 h3, of E0 "''inv_2''" 10000 4 3 0 81 82 1 7] h1
  show ?thesis by (simp add: reverse1_def)
qed

section \<open>The allocation configuration\<close>

text \<open>
  Claim C8, as stated, at the quadruple \<open>(2 ^ 255, 2 ^ 255, 0, 0)\<close> sent by the owner to the
  fresh deployment: the four values do not sum to 10000, and the call does not fail with
  \<^verbatim>\<open>InvalidPercentages\<close>; the first checked addition overflows and the call reverts with
  the arithmetic panic.
\<close>

theorem setAllocation_overflow_counterexample:
  "unat (2 ^ 255 :: uint256) + unat (2 ^ 255 :: uint256) + unat (0 :: uint256)
     + unat (0 :: uint256) \<noteq> 10000
   \<and> msg_sender asOwner = owner deployed0
   \<and> setAllocation asOwner (2 ^ 255) (2 ^ 255) 0 0 deployed0 = Inl Panic_Arithmetic
   \<and> setAllocation asOwner (2 ^ 255) (2 ^ 255) 0 0 deployed0 \<noteq> Inl InvalidPercentages"
  by (simp add: model_defs scenario_defs)

text \<open>
  Claim C8, amended. For every quadruple of values that does not sum exactly to 10000,
  \<^verbatim>\<open>setAllocation\<close> fails and the transaction leaves the state, and so the configuration,
  unchanged; called by the owner it fails with \<^verbatim>\<open>InvalidPercentages\<close> when the sum fits
  into 256 bits, and with the arithmetic panic of the checked addition when it does not.
  In every reachable state, from construction onward and after any sequence of
  transactions, the four weights sum to exactly 10000.
\<close>

theorem setAllocation_sum_invariant:
  "(unat r + unat l + unat e + unat k \<noteq> 10000 \<longrightarrow>
      (\<exists>err. setAllocation c r l e k s = Inl err)
      \<and> step E (c, SetAllocation r l e k) s = s
      \<and> (msg_sender c = owner s \<and> unat r + unat l + unat e + unat k < 2 ^ 256 \<longrightarrow>
           setAllocation c r l e k s = Inl InvalidPercentages)
      \<and> (msg_sender c = owner s \<and> \<not> unat r + unat l + unat e + unat k < 2 ^ 256 \<longrightarrow>
           setAllocation c r l e k s = Inl Panic_Arithmetic))
   \<and> (reachable E s \<longrightarrow> allocationSum s = 10000)"
proof (intro conjI impI)
  assume ne: "unat r + unat l + unat e + unat k \<noteq> 10000"
  show fails: "\<exists>err. setAllocation c r l e k s = Inl err"
  proof (cases "setAllocation c r l e k s")
    case (Inl err)
    then show ?thesis by blast
  next
    case (Inr res)
    then have "setAllocation c r l e k s = Inr (fst res, snd res)" by (cases res) simp
    from setAllocation_Inr(2) [OF this] ne show ?thesis by simp
  qed
  then show "step E (c, SetAllocation r l e k) s = s"
    by (auto simp: step_def dropResult_def)
next
  assume ne: "unat r + unat l + unat e + unat k \<noteq> 10000"
    and h: "msg_sender c = owner s \<and> unat r + unat l + unat e + unat k < 2 ^ 256"
  then have f1: "unat r + unat l < 2 ^ 256" by simp
  with h have f2: "unat (r + l) + unat e < 2 ^ 256" by (simp add: unat_add_fits)
  with h f1 have f3: "unat (r + l + e) + unat k < 2 ^ 256" by (simp add: unat_add_fits)
  have "unat (r + l + e + k) = unat r + unat l + unat e + unat k"
    using f1 f2 f3 by (simp add: unat_add_fits)
  with ne have "r + l + e + k \<noteq> 10000" by auto
  with h f1 f2 f3 show "setAllocation c r l e k s = Inl InvalidPercentages"
    by (simp add: setAllocation_def onlyOwner_def checked_add_def BASIS_POINTS_def)
next
  assume h: "msg_sender c = owner s \<and> \<not> unat r + unat l + unat e + unat k < 2 ^ 256"
  show "setAllocation c r l e k s = Inl Panic_Arithmetic"
  proof (cases "unat r + unat l < 2 ^ 256")
    case False
    with h show ?thesis by (simp add: setAllocation_def onlyOwner_def checked_add_def)
  next
    case f1: True
    show ?thesis
    proof (cases "unat (r + l) + unat e < 2 ^ 256")
      case False
      with h f1 show ?thesis by (simp add: setAllocation_def onlyOwner_def checked_add_def)
    next
      case f2: True
      have "unat (r + l + e) = unat r + unat l + unat e"
        using f1 f2 by (simp add: unat_add_fits)
      with h have "\<not> unat (r + l + e) + unat k < 2 ^ 256" by simp
      with h f1 f2 show ?thesis by (simp add: setAllocation_def onlyOwner_def checked_add_def)
    qed
  qed
next
  assume "reachable E s"
  then show "allocationSum s = 10000" by (rule reachable_allocationSum)
qed

text \<open>
  The theorem at the fresh deployment, for the owner's quadruple of the test-suite that
  sums to 11000, and at the state after an accepted update.
\<close>

theorem setAllocation_sum_invariant_witness:
  "unat (5000 :: uint256) + unat (3000 :: uint256) + unat (2000 :: uint256)
     + unat (1000 :: uint256) \<noteq> 10000
   \<and> setAllocation asOwner 5000 3000 2000 1000 deployed0 = Inl InvalidPercentages
   \<and> step E0 (asOwner, SetAllocation 5000 3000 2000 1000) deployed0 = deployed0
   \<and> reachable E0 (run E0 [realloc] deployed0)
   \<and> allocationSum (run E0 [realloc] deployed0) = 10000"
proof -
  have ne: "unat (5000 :: uint256) + unat (3000 :: uint256) + unat (2000 :: uint256)
     + unat (1000 :: uint256) \<noteq> 10000" by simp
  have own: "msg_sender asOwner = owner deployed0
    \<and> unat (5000 :: uint256) + unat (3000 :: uint256) + unat (2000 :: uint256)
     + unat (1000 :: uint256) < 2 ^ 256" by (simp add: scenario_defs)
  have re: "reachable E0 (run E0 [realloc] deployed0)"
    by (rule reachable_run [OF reachable_deployed0])
  from setAllocation_sum_invariant [of 5000 3000 2000 1000 asOwner deployed0 E0]
       setAllocation_sum_invariant [of 0 0 0 0 asOwner "run E0 [realloc] deployed0" E0]
       ne own re
  show ?thesis by blast
qed

section \<open>The totals\<close>

text \<open>
  Claim C10. In every reachable state \<^verbatim>\<open>totalRevenueReversed\<close> is at most
  \<^verbatim>\<open>totalRevenueBridged\<close>, so the checked subtraction of \<^verbatim>\<open>netRevenue()\<close> does not underflow:
  the view returns the difference of the two totals.
\<close>

theorem reversed_le_bridged:
  assumes "reachable E s"
  shows "unat (totalRevenueReversed s) \<le> unat (totalRevenueBridged s)
       \<and> netRevenue s = Inr (totalRevenueBridged s - totalRevenueReversed s)
       \<and> unat (totalRevenueBridged s - totalRevenueReversed s)
           = unat (totalRevenueBridged s) - unat (totalRevenueReversed s)"
proof -
  from reachable_totals [OF assms]
  have le: "unat (totalRevenueReversed s) \<le> unat (totalRevenueBridged s)" by simp
  then show ?thesis by (simp add: netRevenue_def checked_sub_def unat_sub_fits)
qed

text \<open>
  The theorem at the state of the test-suite's scenario: \<open>inv_1\<close> and \<open>inv_2\<close> bridged for
  10000 each, the settlement of \<open>inv_2\<close> reversed.
\<close>

theorem reversed_le_bridged_witness:
  "reachable E0 (run E0 [bridge1, bridge2, reverse2] deployed0)
   \<and> totalRevenueBridged (run E0 [bridge1, bridge2, reverse2] deployed0) = 20000
   \<and> totalRevenueReversed (run E0 [bridge1, bridge2, reverse2] deployed0) = 10000
   \<and> netRevenue (run E0 [bridge1, bridge2, reverse2] deployed0) = Inr 10000"
proof -
  let ?s = "run E0 [bridge1, bridge2, reverse2] deployed0"
  have re: "reachable E0 ?s" by (rule reachable_run [OF reachable_deployed0])
  have t: "totalRevenueBridged ?s = 20000" "totalRevenueReversed ?s = 10000"
    by (simp_all add: model_defs scenario_defs)
  from reversed_le_bridged [OF re] re t show ?thesis by simp
qed

section \<open>The invoice index\<close>

lemma ledgerStep_invoice:
  "ledgerStep E s s' \<Longrightarrow> invoiceToSettlement s h \<noteq> 0 \<Longrightarrow>
   invoiceToSettlement s' h = invoiceToSettlement s h"
  by (induction rule: ledgerStep.induct) auto

lemma run_invoice:
  "invoiceToSettlement s h \<noteq> 0 \<Longrightarrow>
   invoiceToSettlement (run E txs s) h = invoiceToSettlement s h"
proof (induction txs arbitrary: s)
  case Nil
  then show ?case by simp
next
  case (Cons tx txs)
  from ledgerStep_invoice [OF step_ledger Cons.prems]
  have "invoiceToSettlement (step E tx s) h = invoiceToSettlement s h" .
  with Cons show ?case by simp
qed

lemma run_entered: "entered (run E txs s) = entered s"
  by (induction txs arbitrary: s) (simp_all add: ledgerStep_entered [OF step_ledger])

text \<open>
  Claim C9. Once \<^verbatim>\<open>bridgeRevenue\<close> has created a settlement for an invoice (returning a
  settlement identifier, which is not the zero word the index uses for "unmapped"), the
  invoice stays mapped to that identifier after any sequence of transactions, reversals
  and disputes included: no transaction removes or changes the entry. Bridging the invoice
  again never succeeds, whoever calls and whatever the other arguments; called by the
  operator or the owner while not paused, with a non-zero amount and beneficiary, it fails
  with \<^verbatim>\<open>InvoiceAlreadyProcessed\<close>.
\<close>

theorem invoice_mapping_permanent:
  assumes "bridgeRevenue E c0 invId a0 p0 b0 cur0 src0 dst0 s0 = Inr (sid, s1)"
    and "sid \<noteq> 0"
  shows "getSettlementByInvoice E invId (run E txs s1) = sid
       \<and> isInvoiceProcessed E invId (run E txs s1)
       \<and> bridgeRevenue E c invId a p b cur src dst (run E txs s1) \<noteq> Inr r
       \<and> (authorized c (run E txs s1) \<and> \<not> paused (run E txs s1) \<and> a \<noteq> 0 \<and> b \<noteq> 0 \<longrightarrow>
            bridgeRevenue E c invId a p b cur src dst (run E txs s1)
              = Inl (InvoiceAlreadyProcessed invId))"
proof -
  from bridgeRevenue_Inr [OF assms(1)] obtain s'' where
    body: "bridgeRevenue_body E c0 invId a0 p0 b0 cur0 src0 dst0 (s0\<lparr>entered := True\<rparr>)
             = Inr (sid, s'')"
    and s1: "s1 = s''\<lparr>entered := False\<rparr>" by blast
  have m1: "invoiceToSettlement s1 (hashInvoice E invId) = sid"
    using bridgeRevenue_body_Inr(8) [OF body] by (simp add: s1)
  have e1: "\<not> entered s1" by (simp add: s1)
  let ?s = "run E txs s1"
  have m: "invoiceToSettlement ?s (hashInvoice E invId) = sid"
    using run_invoice [of s1 "hashInvoice E invId" E txs] m1 assms(2) by simp
  have e: "\<not> entered ?s" using e1 by (simp add: run_entered)
  have no: "bridgeRevenue E c invId a p b cur src dst ?s \<noteq> Inr r"
  proof
    assume "bridgeRevenue E c invId a p b cur src dst ?s = Inr r"
    then have "bridgeRevenue E c invId a p b cur src dst ?s = Inr (fst r, snd r)"
      by (cases r) simp
    from bridgeRevenue_Inr(4) [OF this] obtain t where
      "bridgeRevenue_body E c invId a p b cur src dst (?s\<lparr>entered := True\<rparr>) = Inr (fst r, t)"
      by blast
    from bridgeRevenue_body_Inr(4) [OF this] m assms(2) show False by simp
  qed
  have dup: "authorized c ?s \<and> \<not> paused ?s \<and> a \<noteq> 0 \<and> b \<noteq> 0 \<longrightarrow>
            bridgeRevenue E c invId a p b cur src dst ?s = Inl (InvoiceAlreadyProcessed invId)"
    using m e assms(2)
    by (auto simp: bridgeRevenue_def bridgeRevenue_body_def onlyOperator_def nonReentrant_def
        whenNotPaused_def authorized_def)
  from m assms(2) no dup show ?thesis
    by (simp add: getSettlementByInvoice_def isInvoiceProcessed_def)
qed

text \<open>
  The theorem for \<open>inv_1\<close>, bridged at the fresh deployment (settlement identifier 1) and
  then reversed: the invoice is still mapped to 1 and a new bridging of it is rejected.
\<close>

theorem invoice_mapping_permanent_witness:
  "bridgeRevenue E0 asOperator ''inv_1'' 10000 4 3 0 81 82 deployed0
     = Inr (1, run E0 [bridge1] deployed0)
   \<and> status (settlements (run E0 [reverse1] (run E0 [bridge1] deployed0)) 1) = REVERSED
   \<and> getSettlementByInvoice E0 ''inv_1'' (run E0 [reverse1] (run E0 [bridge1] deployed0)) = 1
   \<and> bridgeRevenue E0 asOperator ''inv_1'' 500 4 3 0 81 82
        (run E0 [reverse1] (run E0 [bridge1] deployed0)) = Inl (InvoiceAlreadyProcessed ''inv_1'')"
proof -
  let ?s = "run E0 [reverse1] (run E0 [bridge1] deployed0)"
  have h: "bridgeRevenue E0 asOperator ''inv_1'' 10000 4 3 0 81 82 deployed0
     = Inr (1, run E0 [bridge1] deployed0)"
    by (simp add: model_defs scenario_defs)
  have nz: "(1 :: bytes32) \<noteq> 0" by simp
  have st: "status (settlements ?s 1) = REVERSED"
    by (simp add: model_defs scenario_defs)
  have pre: "authorized asOperator ?s \<and> \<not> paused ?s \<and> (500 :: uint256) \<noteq> 0 \<and> (3 :: address) \<noteq> 0"
    by (simp add: authorized_def model_defs scenario_defs)
  from invoice_mapping_permanent [OF h nz, of "[reverse1]" asOperator 500 4 3 0 81 82] h st pre
  show ?thesis by simp
qed

section \<open>The status of a settlement\<close>

text \<open>
  Claim C4, as stated, at the state after \<open>inv_1\<close> was bridged and its settlement reversed:
  the state is reachable, the status of settlement 1 is REVERSED, and the operator's
  \<^verbatim>\<open>disputeSettlement\<close> changes it to DISPUTED.
\<close>

theorem dispute_leaves_reversed_counterexample:
  "reachable E0 (run E0 [bridge1, reverse1] deployed0)
   \<and> status (settlements (run E0 [bridge1, reverse1] deployed0) 1) = REVERSED
   \<and> status (settlements (step E0 dispute1 (run E0 [bridge1, reverse1] deployed0)) 1) = DISPUTED"
proof -
  have "reachable E0 (run E0 [bridge1, reverse1] deployed0)"
    by (rule reachable_run [OF reachable_deployed0])
  then show ?thesis by (simp add: model_defs scenario_defs)
qed

text \<open>
  Claim C4, amended. In every reachable state, one transaction whose generated settlement
  identifier is fresh (not that of a stored settlement) changes the status of a settlement
  only along (none) \<open>\<rightarrow>\<close> SETTLED, SETTLED \<open>\<rightarrow>\<close> REVERSED, SETTLED \<open>\<rightarrow>\<close> DISPUTED or
  REVERSED \<open>\<rightarrow>\<close> DISPUTED, where (none) is the default record, of status PENDING. So no
  settlement reaches REVERSED or DISPUTED without having been SETTLED, a DISPUTED one
  stays DISPUTED, and a REVERSED one is never SETTLED again: after any sequence of
  transactions that generate fresh identifiers it is REVERSED or DISPUTED.
\<close>

theorem status_transitions:
  assumes "reachable E s" and "idFresh E tx s" and "idsFresh E txs s"
  shows "transitionAllowed (status (settlements s sid)) (status (settlements (step E tx s) sid))
       \<and> (status (settlements s sid) = REVERSED \<longrightarrow>
            status (settlements (run E txs s) sid) = REVERSED
            \<or> status (settlements (run E txs s) sid) = DISPUTED)"
proof -
  have "transitionAllowed (status (settlements s sid)) (status (settlements (step E tx s) sid))"
    by (rule step_transition [OF reachable_existing [OF assms(1)] assms(2)])
  moreover have "status (settlements s sid) = REVERSED \<longrightarrow>
            status (settlements (run E txs s) sid) = REVERSED
            \<or> status (settlements (run E txs s) sid) = DISPUTED"
    using reversed_stays [OF assms(1) assms(3)] by blast
  ultimately show ?thesis by blast
qed

text \<open>
  The theorem at the state after \<open>inv_1\<close> was bridged, for its reversal, and at the state
  after the reversal, for the bridging of \<open>inv_2\<close> (whose identifier 2 is fresh) and for
  that bridging followed by a dispute and an attempt to reverse again.
\<close>

theorem status_transitions_witness:
  "reachable E0 (run E0 [bridge1] deployed0)
   \<and> idFresh E0 reverse1 (run E0 [bridge1] deployed0)
   \<and> status (settlements (run E0 [bridge1] deployed0) 1) = SETTLED
   \<and> transitionAllowed SETTLED (status (settlements (step E0 reverse1 (run E0 [bridge1] deployed0)) 1))
   \<and> idFresh E0 bridge2 (run E0 [bridge1, reverse1] deployed0)
   \<and> idsFresh E0 [bridge2, dispute1, reverse1] (run E0 [bridge1, reverse1] deployed0)
   \<and> status (settlements (run E0 [bridge1, reverse1] deployed0) 1) = REVERSED
   \<and> transitionAllowed REVERSED
        (status (settlements (step E0 bridge2 (run E0 [bridge1, reverse1] deployed0)) 1))
   \<and> (status (settlements (run E0 [bridge2, dispute1, reverse1]
                                (run E0 [bridge1, reverse1] deployed0)) 1) = REVERSED
       \<or> status (settlements (run E0 [bridge2, dispute1, reverse1]
                                (run E0 [bridge1, reverse1] deployed0)) 1) = DISPUTED)"
proof -
  have r1: "reachable E0 (run E0 [bridge1] deployed0)"
    and r2: "reachable E0 (run E0 [bridge1, reverse1] deployed0)"
    by (rule reachable_run [OF reachable_deployed0])+
  have f1: "idFresh E0 reverse1 (run E0 [bridge1] deployed0)"
    by (simp add: idFresh_def reverse1_def)
  have f2: "idFresh E0 bridge2 (run E0 [bridge1, reverse1] deployed0)"
    by (simp add: idFresh_def model_defs scenario_defs zeroEntry_def)
  have f3: "idsFresh E0 [bridge2, dispute1, reverse1] (run E0 [bridge1, reverse1] deployed0)"
    using f2 by (simp add: idFresh_def reverse1_def dispute1_def)
  have s1: "status (settlements (run E0 [bridge1] deployed0) 1) = SETTLED"
    and s2: "status (settlements (run E0 [bridge1, reverse1] deployed0) 1) = REVERSED"
    by (simp_all add: model_defs scenario_defs)
  from status_transitions [OF r1 f1, of "[]" 1]
       status_transitions [OF r2 f2 f3, of 1] r1 r2 f1 f2 f3 s1 s2
  show ?thesis by simp
qed

section \<open>Reversal under an unchanged allocation\<close>

lemma calc_internal_allocation:
  "allocation s = allocation s' \<Longrightarrow>
   calculateAllocations_internal a s = calculateAllocations_internal a s'"
  by (simp add: calculateAllocations_internal_def Let_def split: sum.splits)

lemma issueOne_balances:
  assumes "issueOne sid p a amt s = Inr s'"
  shows "partitionBalances s'
           = (partitionBalances s)(p := (partitionBalances s p)(a := partitionBalances s p a + amt))"
    and "partitionTotals s' = (partitionTotals s)(p := partitionTotals s p + amt)"
    and "unat (partitionBalances s p a) + unat amt < 2 ^ 256"
    and "unat (partitionTotals s p) + unat amt < 2 ^ 256"
proof -
  have "partitionBalances s'
           = (partitionBalances s)(p := (partitionBalances s p)(a := partitionBalances s p a + amt))
      \<and> partitionTotals s' = (partitionTotals s)(p := partitionTotals s p + amt)
      \<and> unat (partitionBalances s p a) + unat amt < 2 ^ 256
      \<and> unat (partitionTotals s p) + unat amt < 2 ^ 256"
  proof (cases "unat amt > 0")
    case True
    with assms show ?thesis
      by (auto simp: issueOne_def issueToPartition_def checked_add_def Let_def
          split: if_splits)
  next
    case False
    then have z: "amt = 0" by (simp add: unsigned_eq_0_iff)
    have "unat (partitionBalances s p a) < 2 ^ LENGTH(256)"
      and "unat (partitionTotals s p) < 2 ^ LENGTH(256)" by (rule unsigned_less)+
    with assms z show ?thesis by (simp add: issueOne_def)
  qed
  then show "partitionBalances s'
           = (partitionBalances s)(p := (partitionBalances s p)(a := partitionBalances s p a + amt))"
    and "partitionTotals s' = (partitionTotals s)(p := partitionTotals s p + amt)"
    and "unat (partitionBalances s p a) + unat amt < 2 ^ 256"
    and "unat (partitionTotals s p) + unat amt < 2 ^ 256" by simp_all
qed

lemma splitAmount_bound:
  assumes "unat (x :: uint256) + unat r < 2 ^ 256" and "unat x + unat l < 2 ^ 256"
    and "unat x + unat e < 2 ^ 256" and "unat x + unat k < 2 ^ 256"
  shows "unat x + unat (splitAmount E r l e k q) < 2 ^ 256"
proof -
  have "unat x < 2 ^ LENGTH(256)" by (rule unsigned_less)
  with assms show ?thesis by (simp add: splitAmount_def)
qed

lemma issueToPartitions_balances:
  assumes "issueToPartitions E sid a r l e k s = Inr s'" and "partitionsDistinct E"
  shows "partitionBalances s'
           = (\<lambda>q. (partitionBalances s q)(a := partitionBalances s q a + splitAmount E r l e k q))"
    and "partitionTotals s' = (\<lambda>q. partitionTotals s q + splitAmount E r l e k q)"
    and "unat (partitionBalances s q a) + unat (splitAmount E r l e k q) < 2 ^ 256"
    and "unat (partitionTotals s q) + unat (splitAmount E r l e k q) < 2 ^ 256"
proof -
  from assms(1) obtain s1 s2 s3 where
    i: "issueOne sid (PARTITION_RESERVE E) a r s = Inr s1"
    "issueOne sid (PARTITION_LIQUIDITY E) a l s1 = Inr s2"
    "issueOne sid (PARTITION_ENTERPRISE E) a e s2 = Inr s3"
    "issueOne sid (PARTITION_STAKING E) a k s3 = Inr s'"
    by (auto simp: issueToPartitions_def Let_def split: sum.splits)
  from assms(2) have d:
    "PARTITION_RESERVE E \<noteq> PARTITION_LIQUIDITY E" "PARTITION_RESERVE E \<noteq> PARTITION_ENTERPRISE E"
    "PARTITION_RESERVE E \<noteq> PARTITION_STAKING E" "PARTITION_LIQUIDITY E \<noteq> PARTITION_ENTERPRISE E"
    "PARTITION_LIQUIDITY E \<noteq> PARTITION_STAKING E" "PARTITION_ENTERPRISE E \<noteq> PARTITION_STAKING E"
    by (simp_all add: partitionsDistinct_def)
  note b = issueOne_balances(1) [OF i(1)] issueOne_balances(1) [OF i(2)]
    issueOne_balances(1) [OF i(3)] issueOne_balances(1) [OF i(4)]
  note t = issueOne_balances(2) [OF i(1)] issueOne_balances(2) [OF i(2)]
    issueOne_balances(2) [OF i(3)] issueOne_balances(2) [OF i(4)]
  have fb: "unat (partitionBalances s (PARTITION_RESERVE E) a) + unat r < 2 ^ 256"
    "unat (partitionBalances s (PARTITION_LIQUIDITY E) a) + unat l < 2 ^ 256"
    "unat (partitionBalances s (PARTITION_ENTERPRISE E) a) + unat e < 2 ^ 256"
    "unat (partitionBalances s (PARTITION_STAKING E) a) + unat k < 2 ^ 256"
    using issueOne_balances(3) [OF i(1)] issueOne_balances(3) [OF i(2)]
      issueOne_balances(3) [OF i(3)] issueOne_balances(3) [OF i(4)] d
    by (simp_all add: b)
  have ft: "unat (partitionTotals s (PARTITION_RESERVE E)) + unat r < 2 ^ 256"
    "unat (partitionTotals s (PARTITION_LIQUIDITY E)) + unat l < 2 ^ 256"
    "unat (partitionTotals s (PARTITION_ENTERPRISE E)) + unat e < 2 ^ 256"
    "unat (partitionTotals s (PARTITION_STAKING E)) + unat k < 2 ^ 256"
    using issueOne_balances(4) [OF i(1)] issueOne_balances(4) [OF i(2)]
      issueOne_balances(4) [OF i(3)] issueOne_balances(4) [OF i(4)] d
    by (simp_all add: t)
  show "partitionBalances s'
           = (\<lambda>q. (partitionBalances s q)(a := partitionBalances s q a + splitAmount E r l e k q))"
  proof
    fix q
    show "partitionBalances s' q
            = (partitionBalances s q)(a := partitionBalances s q a + splitAmount E r l e k q)"
      using d by (auto simp: b splitAmount_def)
  qed
  show "partitionTotals s' = (\<lambda>q. partitionTotals s q + splitAmount E r l e k q)"
  proof
    fix q
    show "partitionTotals s' q = partitionTotals s q + splitAmount E r l e k q"
      using d by (auto simp: t splitAmount_def)
  qed
  have ub: "unat (partitionBalances s q a) < 2 ^ LENGTH(256)"
    and ut: "unat (partitionTotals s q) < 2 ^ LENGTH(256)" by (rule unsigned_less)+
  show "unat (partitionBalances s q a) + unat (splitAmount E r l e k q) < 2 ^ 256"
    using fb ub by (auto simp: splitAmount_def)
  show "unat (partitionTotals s q) + unat (splitAmount E r l e k q) < 2 ^ 256"
    using ft ut by (auto simp: splitAmount_def)
qed

lemma burnOne_balances:
  assumes "unat amt \<le> unat (partitionBalances s p a)" and "unat amt \<le> unat (partitionTotals s p)"
  shows "\<exists>s'. burnOne p a amt s = Inr s' \<and> frame s s'
           \<and> partitionBalances s'
               = (partitionBalances s)(p := (partitionBalances s p)(a := partitionBalances s p a - amt))
           \<and> partitionTotals s' = (partitionTotals s)(p := partitionTotals s p - amt)"
proof (cases "unat amt > 0")
  case True
  with assms show ?thesis
    by (simp add: burnOne_def burnFromPartition_def checked_sub_def frame_def Let_def)
next
  case False
  then have "amt = 0" by (simp add: unsigned_eq_0_iff)
  then show ?thesis by (simp add: burnOne_def frame_def)
qed

lemma burnFromPartitions_balances:
  assumes d: "partitionsDistinct E"
    and gb: "\<And>q. unat (splitAmount E r l e k q) \<le> unat (partitionBalances s q a)"
    and gt: "\<And>q. unat (splitAmount E r l e k q) \<le> unat (partitionTotals s q)"
  shows "\<exists>s'. burnFromPartitions E a r l e k s = Inr s' \<and> frame s s'
           \<and> partitionBalances s'
               = (\<lambda>q. (partitionBalances s q)(a := partitionBalances s q a - splitAmount E r l e k q))
           \<and> partitionTotals s' = (\<lambda>q. partitionTotals s q - splitAmount E r l e k q)"
proof -
  from d have n:
    "PARTITION_RESERVE E \<noteq> PARTITION_LIQUIDITY E" "PARTITION_RESERVE E \<noteq> PARTITION_ENTERPRISE E"
    "PARTITION_RESERVE E \<noteq> PARTITION_STAKING E" "PARTITION_LIQUIDITY E \<noteq> PARTITION_ENTERPRISE E"
    "PARTITION_LIQUIDITY E \<noteq> PARTITION_STAKING E" "PARTITION_ENTERPRISE E \<noteq> PARTITION_STAKING E"
    by (simp_all add: partitionsDistinct_def)
  have g: "unat r \<le> unat (partitionBalances s (PARTITION_RESERVE E) a)"
    "unat l \<le> unat (partitionBalances s (PARTITION_LIQUIDITY E) a)"
    "unat e \<le> unat (partitionBalances s (PARTITION_ENTERPRISE E) a)"
    "unat k \<le> unat (partitionBalances s (PARTITION_STAKING E) a)"
    "unat r \<le> unat (partitionTotals s (PARTITION_RESERVE E))"
    "unat l \<le> unat (partitionTotals s (PARTITION_LIQUIDITY E))"
    "unat e \<le> unat (partitionTotals s (PARTITION_ENTERPRISE E))"
    "unat k \<le> unat (partitionTotals s (PARTITION_STAKING E))"
    using gb [of "PARTITION_RESERVE E"] gb [of "PARTITION_LIQUIDITY E"]
      gb [of "PARTITION_ENTERPRISE E"] gb [of "PARTITION_STAKING E"]
      gt [of "PARTITION_RESERVE E"] gt [of "PARTITION_LIQUIDITY E"]
      gt [of "PARTITION_ENTERPRISE E"] gt [of "PARTITION_STAKING E"] n
    by (simp_all add: splitAmount_def)
  from burnOne_balances [of r s "PARTITION_RESERVE E" a] g obtain s1 where
    1: "burnOne (PARTITION_RESERVE E) a r s = Inr s1" "frame s s1"
    "partitionBalances s1 = (partitionBalances s)(PARTITION_RESERVE E :=
        (partitionBalances s (PARTITION_RESERVE E))(a := partitionBalances s (PARTITION_RESERVE E) a - r))"
    "partitionTotals s1 = (partitionTotals s)(PARTITION_RESERVE E :=
        partitionTotals s (PARTITION_RESERVE E) - r)"
    by blast
  from burnOne_balances [of l s1 "PARTITION_LIQUIDITY E" a] g n obtain s2 where
    2: "burnOne (PARTITION_LIQUIDITY E) a l s1 = Inr s2" "frame s1 s2"
    "partitionBalances s2 = (partitionBalances s1)(PARTITION_LIQUIDITY E :=
        (partitionBalances s1 (PARTITION_LIQUIDITY E))(a := partitionBalances s1 (PARTITION_LIQUIDITY E) a - l))"
    "partitionTotals s2 = (partitionTotals s1)(PARTITION_LIQUIDITY E :=
        partitionTotals s1 (PARTITION_LIQUIDITY E) - l)"
    by (auto simp: 1(3,4))
  from burnOne_balances [of e s2 "PARTITION_ENTERPRISE E" a] g n obtain s3 where
    3: "burnOne (PARTITION_ENTERPRISE E) a e s2 = Inr s3" "frame s2 s3"
    "partitionBalances s3 = (partitionBalances s2)(PARTITION_ENTERPRISE E :=
        (partitionBalances s2 (PARTITION_ENTERPRISE E))(a := partitionBalances s2 (PARTITION_ENTERPRISE E) a - e))"
    "partitionTotals s3 = (partitionTotals s2)(PARTITION_ENTERPRISE E :=
        partitionTotals s2 (PARTITION_ENTERPRISE E) - e)"
    by (auto simp: 1(3,4) 2(3,4))
  from burnOne_balances [of k s3 "PARTITION_STAKING E" a] g n obtain s4 where
    4: "burnOne (PARTITION_STAKING E) a k s3 = Inr s4" "frame s3 s4"
    "partitionBalances s4 = (partitionBalances s3)(PARTITION_STAKING E :=
        (partitionBalances s3 (PARTITION_STAKING E))(a := partitionBalances s3 (PARTITION_STAKING E) a - k))"
    "partitionTotals s4 = (partitionTotals s3)(PARTITION_STAKING E :=
        partitionTotals s3 (PARTITION_STAKING E) - k)"
    by (auto simp: 1(3,4) 2(3,4) 3(3,4))
  have "burnFromPartitions E a r l e k s = Inr s4"
    by (simp add: burnFromPartitions_def 1(1) 2(1) 3(1) 4(1))
  moreover have "frame s s4"
    using 1(2) 2(2) 3(2) 4(2) by (blast intro: frame_trans)
  moreover have "partitionBalances s4
      = (\<lambda>q. (partitionBalances s q)(a := partitionBalances s q a - splitAmount E r l e k q))"
  proof
    fix q
    show "partitionBalances s4 q
            = (partitionBalances s q)(a := partitionBalances s q a - splitAmount E r l e k q)"
      using n by (auto simp: 1(3) 2(3) 3(3) 4(3) splitAmount_def)
  qed
  moreover have "partitionTotals s4 = (\<lambda>q. partitionTotals s q - splitAmount E r l e k q)"
  proof
    fix q
    show "partitionTotals s4 q = partitionTotals s q - splitAmount E r l e k q"
      using n by (auto simp: 1(4) 2(4) 3(4) 4(4) splitAmount_def)
  qed
  ultimately show ?thesis by blast
qed

lemma bridgeRevenue_body_balances:
  assumes "bridgeRevenue_body E c i a p b cur src dst s = Inr (sid, s')"
    and "partitionsDistinct E"
  shows "\<exists>r l e k. calculateAllocations_internal a s = Inr (r, l, e, k)
           \<and> partitionBalances s'
               = (\<lambda>q. (partitionBalances s q)(b := partitionBalances s q b + splitAmount E r l e k q))
           \<and> partitionTotals s' = (\<lambda>q. partitionTotals s q + splitAmount E r l e k q)
           \<and> (\<forall>q. unat (partitionBalances s q b) + unat (splitAmount E r l e k q) < 2 ^ 256)
           \<and> (\<forall>q. unat (partitionTotals s q) + unat (splitAmount E r l e k q) < 2 ^ 256)"
proof -
  from assms(1) obtain s1 r l e k tot s5 where
    g: "generateSettlementId E c i s = Inr (sid, s1)"
    and c: "calculateAllocations_internal a s1 = Inr (r, l, e, k)"
    and iss: "issueToPartitions E sid b r l e k
          (s1\<lparr>settlements :=
                 (settlements s1)
                 (sid :=
                    \<lparr>invoiceId = i, payer = p, beneficiary = b, amount = a,
                       currency = cur, sourceSystem = src,
                       destinationSystem = dst, settlementId = sid,
                       status = SETTLED, bridgedAt = block_timestamp c,
                       settledAt = block_timestamp c\<rparr>),
                 invoiceToSettlement :=
                   (invoiceToSettlement s1)(hashInvoice E i := sid),
                 totalRevenueBridged := tot\<rparr>) = Inr s5"
    and s': "s' = s5\<lparr>events := events s5 @
               [RevenueBridged i p b a cur src dst sid (block_timestamp c)]\<rparr>"
    by (auto simp: bridgeRevenue_body_def Let_def split: if_splits sum.splits prod.splits)
  from g have s1: "allocation s1 = allocation s" "partitionBalances s1 = partitionBalances s"
    "partitionTotals s1 = partitionTotals s"
    by (auto simp: generateSettlementId_def split: sum.splits)
  have "calculateAllocations_internal a s = Inr (r, l, e, k)"
    using c calc_internal_allocation [OF s1(1), of a] by simp
  moreover note issueToPartitions_balances [OF iss assms(2)]
  ultimately show ?thesis using s1(2,3) by (auto simp: s')
qed

text \<open>
  When the allocation has not changed since the issuance, the reversal burns what was
  issued: a settlement bridged in a state whose reversed total does not exceed its bridged
  total (every reachable state), at a non-zero block timestamp, and reversed by the
  operator or the owner before anything else happens, leaves every partition balance and
  every partition total of the token as it was before the bridging, and adds the amount to
  \<^verbatim>\<open>totalRevenueReversed\<close>. The four partition identifiers are taken to differ.
\<close>

lemma reverse_undoes_bridge:
  assumes br: "bridgeRevenue E c i a p b cur src dst s = Inr (sid, s1)"
    and ts: "block_timestamp c \<noteq> 0"
    and le: "unat (totalRevenueReversed s) \<le> unat (totalRevenueBridged s)"
    and auth: "authorized c' s1"
    and dist: "partitionsDistinct E"
  shows "\<exists>s2. reverseSettlement E c' sid reason s1 = Inr ((), s2)
           \<and> partitionBalances s2 = partitionBalances s
           \<and> partitionTotals s2 = partitionTotals s
           \<and> totalRevenueReversed s2 = totalRevenueReversed s + a
           \<and> unat (totalRevenueReversed s2) = unat (totalRevenueReversed s) + unat a
           \<and> status (settlements s2 sid) = REVERSED"
proof -
  from bridgeRevenue_Inr [OF br] obtain s'' where
    np: "\<not> paused s"
    and body: "bridgeRevenue_body E c i a p b cur src dst (s\<lparr>entered := True\<rparr>) = Inr (sid, s'')"
    and s1: "s1 = s''\<lparr>entered := False\<rparr>" by blast
  note f = bridgeRevenue_body_Inr [OF body]
  from bridgeRevenue_body_balances [OF body dist] obtain r l e k where
    calc: "calculateAllocations_internal a (s\<lparr>entered := True\<rparr>) = Inr (r, l, e, k)"
    and bal: "partitionBalances s''
        = (\<lambda>q. (partitionBalances s q)(b := partitionBalances s q b + splitAmount E r l e k q))"
    and tot: "partitionTotals s'' = (\<lambda>q. partitionTotals s q + splitAmount E r l e k q)"
    and fitb: "\<And>q. unat (partitionBalances s q b) + unat (splitAmount E r l e k q) < 2 ^ 256"
    and fitt: "\<And>q. unat (partitionTotals s q) + unat (splitAmount E r l e k q) < 2 ^ 256"
    by auto
  let ?t0 = "s1\<lparr>entered := True\<rparr>"
  let ?t1 = "?t0\<lparr>settlements := (settlements ?t0)(sid := (settlements ?t0 sid)\<lparr>status := REVERSED\<rparr>)\<rparr>"
  let ?t2 = "?t1\<lparr>totalRevenueReversed := totalRevenueReversed s + a\<rparr>"
  have ent: "settlements s1 sid = \<lparr>invoiceId = i, payer = p, beneficiary = b, amount = a,
                   currency = cur, sourceSystem = src, destinationSystem = dst,
                   settlementId = sid, status = SETTLED,
                   bridgedAt = block_timestamp c, settledAt = block_timestamp c\<rparr>"
    using f(7) by (simp add: s1)
  have rv: "totalRevenueReversed s1 = totalRevenueReversed s" using f(11) by (simp add: s1)
  have fits: "unat (totalRevenueReversed s) + unat a < 2 ^ 256"
    using f(3) le by simp
  have c2: "calculateAllocations_internal a ?t2 = Inr (r, l, e, k)"
    using calc calc_internal_allocation [of ?t2 "s\<lparr>entered := True\<rparr>" a] f(12)
    by (simp add: s1)
  have gb: "\<And>q. unat (splitAmount E r l e k q) \<le> unat (partitionBalances ?t2 q b)"
    using fitb by (simp add: s1 bal unat_add_fits)
  have gt: "\<And>q. unat (splitAmount E r l e k q) \<le> unat (partitionTotals ?t2 q)"
    using fitt by (simp add: s1 tot unat_add_fits)
  from burnFromPartitions_balances [of E r l e k ?t2 b, OF dist gb gt] obtain s3 where
    burn: "burnFromPartitions E b r l e k ?t2 = Inr s3" and fr: "frame ?t2 s3"
    and b3: "partitionBalances s3
        = (\<lambda>q. (partitionBalances ?t2 q)(b := partitionBalances ?t2 q b - splitAmount E r l e k q))"
    and t3: "partitionTotals s3 = (\<lambda>q. partitionTotals ?t2 q - splitAmount E r l e k q)"
    by blast
  have b3': "partitionBalances s3 = partitionBalances s"
  proof
    fix q show "partitionBalances s3 q = partitionBalances s q"
      by (rule ext) (simp add: b3 s1 bal)
  qed
  have t3': "partitionTotals s3 = partitionTotals s"
    by (rule ext) (simp add: t3 s1 tot)
  let ?s2 = "s3\<lparr>events := events s3 @
               [SettlementStatusChanged sid SETTLED REVERSED,
                RevenueReversed sid (invoiceId (settlements s3 sid)) (msg_sender c') reason
                  (block_timestamp c')], entered := False\<rparr>"
  have "reverseSettlement E c' sid reason s1 = Inr ((), ?s2)"
    using auth np f(14) ts ent rv fits c2 burn
    by (auto simp: reverseSettlement_def reverseSettlement_body_def onlyOperator_def
        nonReentrant_def whenNotPaused_def authorized_def checked_add_def Let_def s1)
  moreover have "partitionBalances ?s2 = partitionBalances s" using b3' by simp
  moreover have "partitionTotals ?s2 = partitionTotals s" using t3' by simp
  moreover have "totalRevenueReversed ?s2 = totalRevenueReversed s + a"
    using fr by (simp add: frame_def)
  moreover have "status (settlements ?s2 sid) = REVERSED"
    using fr by (simp add: frame_def)
  ultimately show ?thesis using fits by (auto simp: unat_add_fits)
qed

section \<open>Reversal after a change of the allocation\<close>

text \<open>
  Claim C3 fails on the code. \<^verbatim>\<open>reverseSettlement\<close> computes the amounts to burn from the
  allocation at the time of the reversal, not from what was issued. The scenario: \<open>inv_1\<close>
  and \<open>inv_2\<close> are bridged for 10000 each to treasury 3 under 4000/3000/2000/1000, the
  owner sets the allocation to 5000/2500/1500/1000, the settlement of \<open>inv_2\<close> (identifier
  2) is reversed. Before \<open>inv_2\<close> was bridged the four balances of the treasury in the
  token were 4000, 3000, 2000, 1000; its bridging issued 4000, 3000, 2000, 1000 more; its
  reversal succeeds and burns 5000, 2500, 1500, 1000, leaving 3000, 3500, 2500, 1000.
  \<^verbatim>\<open>totalRevenueReversed\<close> grows by the amount 10000 and \<^verbatim>\<open>netRevenue()\<close> is the difference
  of the totals.
\<close>

theorem reversal_after_reallocation_burns_other_split:
  "map (\<lambda>p. balanceOfByPartition p 3 (run E0 [bridge1] deployed0))
     [PARTITION_RESERVE E0, PARTITION_LIQUIDITY E0, PARTITION_ENTERPRISE E0, PARTITION_STAKING E0]
     = [4000, 3000, 2000, 1000]
   \<and> map_sum id fst (bridgeRevenue E0 asOperator ''inv_2'' 10000 4 3 0 81 82
        (run E0 [bridge1] deployed0)) = Inr 2
   \<and> map (\<lambda>p. balanceOfByPartition p 3 (run E0 [bridge1, bridge2] deployed0))
     [PARTITION_RESERVE E0, PARTITION_LIQUIDITY E0, PARTITION_ENTERPRISE E0, PARTITION_STAKING E0]
     = [8000, 6000, 4000, 2000]
   \<and> allocation (run E0 [bridge1, bridge2, realloc] deployed0)
       = \<lparr>reserveBps = 5000, liquidityBps = 2500, enterpriseBps = 1500, stakingBps = 1000\<rparr>
   \<and> map_sum id (\<lambda>r. map (\<lambda>p. balanceOfByPartition p 3 (snd r))
                          [PARTITION_RESERVE E0, PARTITION_LIQUIDITY E0,
                           PARTITION_ENTERPRISE E0, PARTITION_STAKING E0])
        (reverseSettlement E0 asOperator 2 7 (run E0 [bridge1, bridge2, realloc] deployed0))
       = Inr [3000, 3500, 2500, 1000]
   \<and> status (settlements (run E0 [bridge1, bridge2, realloc, reverse2] deployed0) 2) = REVERSED
   \<and> totalRevenueReversed (run E0 [bridge1, bridge2, realloc] deployed0) = 0
   \<and> totalRevenueReversed (run E0 [bridge1, bridge2, realloc, reverse2] deployed0) = 10000
   \<and> netRevenue (run E0 [bridge1, bridge2, realloc, reverse2] deployed0) = Inr 10000"
  by (simp add: balanceOfByPartition_def netRevenue_def model_defs scenario_defs)

end
